theory Spec2Isabelle
  imports Main "HOL-Library.Word"
begin

unbundle bit_operations_syntax

section \<open>Results, errors and machine integers\<close>

text \<open>
  The tree of \<^verbatim>\<open>src/c4/yml/tree.cpp\<close> works in a trust-the-caller regime: a violated
  \<^verbatim>\<open>C4_ASSERT\<close> or a reached \<^verbatim>\<open>C4_NEVER_REACH\<close> aborts.  Every operation of the model
  returns a value of \<open>error + 'a\<close>, so that each abort of the source is a branch of the
  model.  \<open>OutOfBounds\<close> is an access of the node buffer outside the allocated block
  (undefined behaviour in C++), \<open>OutOfFuel\<close> is returned by the recursive walks over the
  hierarchy when their recursion budget is used up.
\<close>

datatype error = AssertFailed | NeverReach | OutOfBounds | OutOfFuel

type_synonym 'a res = "error + 'a"

definition rbind :: "'a res \<Rightarrow> ('a \<Rightarrow> 'b res) \<Rightarrow> 'b res" where
  "rbind m f = (case m of Inl e \<Rightarrow> Inl e | Inr x \<Rightarrow> f x)"

lemma rbind_Inl [simp]: "rbind (Inl e) f = Inl e"
  by (simp add: rbind_def)

lemma rbind_Inr [simp]: "rbind (Inr x) f = f x"
  by (simp add: rbind_def)

lemma rbind_cong [fundef_cong]:
  "m = m' \<Longrightarrow> (\<And>x. m' = Inr x \<Longrightarrow> f x = f' x) \<Longrightarrow> rbind m f = rbind m' f'"
  by (cases m') (simp_all add: rbind_def)

lemma rbind_eq_Inr:
  "(rbind m f = Inr y) = (\<exists>x. m = Inr x \<and> f x = Inr y)"
  by (cases m) simp_all

text \<open>\<^verbatim>\<open>size_t\<close> is a 64-bit unsigned integer; \<^verbatim>\<open>NONE\<close> and \<^verbatim>\<open>npos\<close> are
  \<^verbatim>\<open>size_t(-1)\<close>, so that \<open>0 - 1 = NONE\<close> as in the source.\<close>

type_synonym size_t = "64 word"

definition NONE :: size_t where
  "NONE = - 1"

definition npos :: size_t where
  "npos = - 1"

section \<open>Data model\<close>

text \<open>
  A \<^verbatim>\<open>csubstr\<close> is a pointer and a length.  The model keeps the pointer as an address
  and, in place of the length, the characters the view shows (what reading
  \<^verbatim>\<open>str[0..len)\<close> returns while that memory is alive): comparing two views compares
  their characters, as \<^verbatim>\<open>operator==\<close> of the source does, and relocating a view changes
  its address only.
\<close>

record csubstr =
  str :: nat
  chars :: string

definition empty_csubstr :: csubstr where
  "empty_csubstr = \<lparr>str = 0, chars = []\<rparr>"

record NodeScalar =
  tag :: csubstr
  scalar :: csubstr
  anchor :: csubstr

text \<open>Modelled from the spec: \<^verbatim>\<open>NodeScalar::clear()\<close> and the conversion of a
  \<^verbatim>\<open>csubstr\<close> to a \<^verbatim>\<open>NodeScalar\<close> are declared in \<^verbatim>\<open>tree.hpp\<close>, which is not among the
  sources.  Clearing empties the three spans; a scalar built from a view has that view
  as its text and no tag and no anchor.\<close>

definition clear_scalar :: NodeScalar where
  "clear_scalar = \<lparr>tag = empty_csubstr, scalar = empty_csubstr, anchor = empty_csubstr\<rparr>"

definition scalar_of :: "csubstr \<Rightarrow> NodeScalar" where
  "scalar_of s = \<lparr>tag = empty_csubstr, scalar = s, anchor = empty_csubstr\<rparr>"

type_synonym type_bits = "64 word"

text \<open>Modelled from the spec: the values of the \<^verbatim>\<open>NodeType_e\<close> bits are declared in
  \<^verbatim>\<open>tree.hpp\<close>, which is not among the sources.  The kinds and modifier bits are those
  of section 3.2 of the specification and of \<^verbatim>\<open>NodeType::type_str\<close>.\<close>

definition NOTYPE :: type_bits where "NOTYPE = 0"
definition VAL :: type_bits where "VAL = 1"
definition KEY :: type_bits where "KEY = 2"
definition MAP :: type_bits where "MAP = 4"
definition SEQ :: type_bits where "SEQ = 8"
definition DOC :: type_bits where "DOC = 16"
definition STREAM :: type_bits where "STREAM = 40"
definition KEYREF :: type_bits where "KEYREF = 64"
definition VALREF :: type_bits where "VALREF = 128"
definition KEYANCH :: type_bits where "KEYANCH = 256"
definition VALANCH :: type_bits where "VALANCH = 512"
definition TYMASK :: type_bits where "TYMASK = 1023"
definition KEYVAL :: type_bits where "KEYVAL = 3"
definition KEYSEQ :: type_bits where "KEYSEQ = 10"
definition KEYMAP :: type_bits where "KEYMAP = 6"

lemmas type_defs = NOTYPE_def VAL_def KEY_def MAP_def SEQ_def DOC_def STREAM_def
  KEYREF_def VALREF_def KEYANCH_def VALANCH_def TYMASK_def KEYVAL_def KEYSEQ_def KEYMAP_def

record NodeData =
  m_type :: type_bits
  m_key :: NodeScalar
  m_val :: NodeScalar
  m_parent :: size_t
  m_first_child :: size_t
  m_last_child :: size_t
  m_next_sibling :: size_t
  m_prev_sibling :: size_t

text \<open>The arena is a \<^verbatim>\<open>substr\<close>: the address of the buffer and its length.\<close>

record substr =
  arena_str :: nat
  arena_len :: size_t

text \<open>Modelled from the spec: the allocator is an opaque capability
  (\<^verbatim>\<open>allocate(size, hint)\<close>, \<^verbatim>\<open>free(ptr, size)\<close>) declared outside the sources.  The model
  is a bump allocator: a block starts at \<open>brk\<close>, which then moves past it, and the blocks
  given back are recorded in \<open>freed\<close>; no address is handed out twice.\<close>

record Allocator =
  brk :: nat
  freed :: "(nat \<times> nat) list"

definition allocate :: "Allocator \<Rightarrow> nat \<Rightarrow> nat \<times> Allocator" where
  "allocate a n = (brk a, a\<lparr>brk := brk a + n\<rparr>)"

definition free_block :: "Allocator \<Rightarrow> nat \<Rightarrow> nat \<Rightarrow> Allocator" where
  "free_block a p n = a\<lparr>freed := (p, n) # freed a\<rparr>"

text \<open>The tree.  \<open>m_buf\<close> is the node buffer; the null pointer is the empty list.\<close>

record Tree =
  m_buf :: "NodeData list"
  m_cap :: size_t
  m_size :: size_t
  m_free_head :: size_t
  m_free_tail :: size_t
  m_arena :: substr
  m_arena_pos :: size_t
  m_alloc :: Allocator

text \<open>\<^verbatim>\<open>Tree::Tree(Allocator const&)\<close>: no buffer, no arena, an empty free list.\<close>

definition Tree_new :: "Allocator \<Rightarrow> Tree" where
  "Tree_new cb = \<lparr>m_buf = [], m_cap = 0, m_size = 0, m_free_head = NONE, m_free_tail = NONE,
     m_arena = \<lparr>arena_str = 0, arena_len = 0\<rparr>, m_arena_pos = 0, m_alloc = cb\<rparr>"

section \<open>Access to the node buffer\<close>

text \<open>A raw access \<^verbatim>\<open>m_buf[i]\<close> is checked against the allocated block only.\<close>

definition raw :: "Tree \<Rightarrow> size_t \<Rightarrow> NodeData res" where
  "raw t i = (if unat i < length (m_buf t) then Inr (m_buf t ! unat i) else Inl OutOfBounds)"

definition raw_upd :: "Tree \<Rightarrow> size_t \<Rightarrow> (NodeData \<Rightarrow> NodeData) \<Rightarrow> Tree res" where
  "raw_upd t i f =
     (if unat i < length (m_buf t)
      then Inr (t\<lparr>m_buf := (m_buf t)[unat i := f (m_buf t ! unat i)]\<rparr>)
      else Inl OutOfBounds)"

text \<open>Modelled from the spec: \<^verbatim>\<open>_p(i)\<close>, \<^verbatim>\<open>get(i)\<close> and the read-only accessors are
  declared in \<^verbatim>\<open>tree.hpp\<close>, which is not among the sources.  \<^verbatim>\<open>_p(i)\<close> asserts that
  \<open>i\<close> is a handle in range (section 7: a handle out of range is a contract violation)
  and gives the record; \<^verbatim>\<open>get(i)\<close> gives the null pointer for \<^verbatim>\<open>NONE\<close>.\<close>

definition priv_p :: "Tree \<Rightarrow> size_t \<Rightarrow> NodeData res" where
  "priv_p t i = (if i \<noteq> NONE \<and> i < m_cap t then raw t i else Inl AssertFailed)"

definition p_upd :: "Tree \<Rightarrow> size_t \<Rightarrow> (NodeData \<Rightarrow> NodeData) \<Rightarrow> Tree res" where
  "p_upd t i f = (if i \<noteq> NONE \<and> i < m_cap t then raw_upd t i f else Inl AssertFailed)"

definition get :: "Tree \<Rightarrow> size_t \<Rightarrow> NodeData option res" where
  "get t i =
     (if i = NONE then Inr None
      else if i < m_cap t then rbind (raw t i) (\<lambda>n. Inr (Some n))
      else Inl AssertFailed)"

definition node_type :: "Tree \<Rightarrow> size_t \<Rightarrow> type_bits res" where
  "node_type t i = rbind (priv_p t i) (\<lambda>n. Inr (m_type n AND TYMASK))"

definition parent :: "Tree \<Rightarrow> size_t \<Rightarrow> size_t res" where
  "parent t i = rbind (priv_p t i) (\<lambda>n. Inr (m_parent n))"

definition first_child :: "Tree \<Rightarrow> size_t \<Rightarrow> size_t res" where
  "first_child t i = rbind (priv_p t i) (\<lambda>n. Inr (m_first_child n))"

definition last_child :: "Tree \<Rightarrow> size_t \<Rightarrow> size_t res" where
  "last_child t i = rbind (priv_p t i) (\<lambda>n. Inr (m_last_child n))"

definition next_sibling :: "Tree \<Rightarrow> size_t \<Rightarrow> size_t res" where
  "next_sibling t i = rbind (priv_p t i) (\<lambda>n. Inr (m_next_sibling n))"

definition prev_sibling :: "Tree \<Rightarrow> size_t \<Rightarrow> size_t res" where
  "prev_sibling t i = rbind (priv_p t i) (\<lambda>n. Inr (m_prev_sibling n))"

section \<open>Node store\<close>

text \<open>Modelled from the spec: \<^verbatim>\<open>_clear(i)\<close> is declared in \<^verbatim>\<open>tree.hpp\<close>, which is not
  among the sources.  It resets the record to \<^verbatim>\<open>NOTYPE\<close> with empty key and value and no
  parent and no children; the sibling fields are left alone, since free records use
  them for the free list (sections 3.4, 3.5 and 4.2).\<close>

definition cleared :: "NodeData \<Rightarrow> NodeData" where
  "cleared n = n\<lparr>m_type := NOTYPE, m_key := clear_scalar, m_val := clear_scalar,
                 m_parent := NONE, m_first_child := NONE, m_last_child := NONE\<rparr>"

definition priv_clear :: "Tree \<Rightarrow> size_t \<Rightarrow> Tree res" where
  "priv_clear t i = p_upd t i cleared"

text \<open>The record \<^verbatim>\<open>memset\<close> leaves: every byte zero.\<close>

definition zero_node :: NodeData where
  "zero_node = \<lparr>m_type = 0, m_key = clear_scalar, m_val = clear_scalar, m_parent = 0,
     m_first_child = 0, m_last_child = 0, m_next_sibling = 0, m_prev_sibling = 0\<rparr>"

definition memset_nodes :: "Tree \<Rightarrow> size_t \<Rightarrow> size_t \<Rightarrow> Tree res" where
  "memset_nodes t first num =
     (if unat first + unat num \<le> length (m_buf t)
      then Inr (t\<lparr>m_buf := take (unat first) (m_buf t) @ replicate (unat num) zero_node
                            @ drop (unat first + unat num) (m_buf t)\<rparr>)
      else Inl OutOfBounds)"

lemma unat_succ_less: "(i :: size_t) < e \<Longrightarrow> unat (i + 1) = Suc (unat i)"
proof -
  assume "i < e"
  then have "i \<noteq> - 1"
    by auto
  then have "1 + i \<noteq> 0"
    by (metis add.commute add_eq_0_iff)
  then show ?thesis
    by (simp add: unatSuc add.commute)
qed

text \<open>The loop of \<^verbatim>\<open>_clear_range\<close>: \<^verbatim>\<open>for(i = first, e = first + num; i < e; ++i)\<close>.\<close>

function clear_range_loop :: "Tree \<Rightarrow> size_t \<Rightarrow> size_t \<Rightarrow> Tree res" where
  "clear_range_loop t i e =
     (if i < e
      then rbind (priv_clear t i) (\<lambda>t1.
           rbind (raw_upd t1 i (\<lambda>n. n\<lparr>m_prev_sibling := i - 1, m_next_sibling := i + 1\<rparr>)) (\<lambda>t2.
           clear_range_loop t2 (i + 1) e))
      else Inr t)"
  by pat_completeness auto
termination
proof (relation "measure (\<lambda>(t, i, e). unat e - unat i)")
  show "wf (measure (\<lambda>(t, i, e). unat e - unat i))"
    by simp
next
  fix t :: Tree and i e :: size_t and x xa
  assume lt: "i < e"
  then have "unat (i + 1) = Suc (unat i)"
    by (rule unat_succ_less)
  with lt show "((xa, i + 1, e), (t, i, e)) \<in> measure (\<lambda>(t, i, e). unat e - unat i)"
    by (simp add: word_less_nat_alt)
qed

declare clear_range_loop.simps [simp del]

definition priv_clear_range :: "Tree \<Rightarrow> size_t \<Rightarrow> size_t \<Rightarrow> Tree res" where
  "priv_clear_range t first num =
     (if num = 0 then Inr t
      else if \<not> first + num \<le> m_cap t then Inl AssertFailed
      else rbind (memset_nodes t first num) (\<lambda>t1.
           rbind (clear_range_loop t1 first (first + num)) (\<lambda>t2.
           raw_upd t2 (first + num - 1) (\<lambda>n. n\<lparr>m_next_sibling := NONE\<rparr>))))"

section \<open>Hierarchy primitives\<close>

text \<open>\<^verbatim>\<open>Tree::_set_hierarchy\<close>.  A null \<^verbatim>\<open>child\<close> pointer (handle \<^verbatim>\<open>NONE\<close>) is dereferenced by
  the source; the model reports it as \<open>OutOfBounds\<close>.  \<^verbatim>\<open>id(p)\<close> of the pointer that
  \<^verbatim>\<open>get(i)\<close> returned is \<open>i\<close>.\<close>

definition priv_set_hierarchy :: "Tree \<Rightarrow> size_t \<Rightarrow> size_t \<Rightarrow> size_t \<Rightarrow> Tree res" where
  "priv_set_hierarchy t ichild iparent iprev_sibling =
     (if \<not> (iparent = NONE \<or> iparent < m_cap t) then Inl AssertFailed
      else if \<not> (iprev_sibling = NONE \<or> iprev_sibling < m_cap t) then Inl AssertFailed
      else rbind (get t ichild) (\<lambda>child.
        if child = None then Inl OutOfBounds
        else rbind (raw_upd t ichild (\<lambda>n. n\<lparr>m_parent := iparent, m_prev_sibling := NONE,
                                                  m_next_sibling := NONE\<rparr>)) (\<lambda>t1.
        if iparent = NONE
        then (if ichild = 0 \<and> iprev_sibling = NONE then Inr t1 else Inl AssertFailed)
        else rbind (if iprev_sibling \<noteq> NONE then next_sibling t1 iprev_sibling
                    else first_child t1 iparent) (\<lambda>inext_sibling.
        rbind (get t1 iparent) (\<lambda>parent_ptr.
        rbind (get t1 iprev_sibling) (\<lambda>psib.
        rbind (get t1 inext_sibling) (\<lambda>nsib.
        rbind (if psib = None then Inr t1
               else rbind (next_sibling t1 iprev_sibling) (\<lambda>ns.
                    if ns \<noteq> inext_sibling then Inl AssertFailed
                    else rbind (raw_upd t1 ichild (\<lambda>n. n\<lparr>m_prev_sibling := iprev_sibling\<rparr>)) (\<lambda>t2.
                         rbind (raw_upd t2 iprev_sibling (\<lambda>n. n\<lparr>m_next_sibling := ichild\<rparr>)) (\<lambda>t3.
                         rbind (raw t3 iprev_sibling) (\<lambda>ps.
                         if m_prev_sibling ps \<noteq> m_next_sibling ps \<or> m_prev_sibling ps = NONE
                         then Inr t3 else Inl AssertFailed))))) (\<lambda>t4.
        rbind (if nsib = None then Inr t4
               else rbind (prev_sibling t4 inext_sibling) (\<lambda>pv.
                    if pv \<noteq> iprev_sibling then Inl AssertFailed
                    else rbind (raw_upd t4 ichild (\<lambda>n. n\<lparr>m_next_sibling := inext_sibling\<rparr>)) (\<lambda>t5.
                         rbind (raw_upd t5 inext_sibling (\<lambda>n. n\<lparr>m_prev_sibling := ichild\<rparr>)) (\<lambda>t6.
                         rbind (raw t6 inext_sibling) (\<lambda>ns.
                         if m_prev_sibling ns \<noteq> m_next_sibling ns \<or> m_prev_sibling ns = NONE
                         then Inr t6 else Inl AssertFailed))))) (\<lambda>t7.
        rbind (raw t7 iparent) (\<lambda>p.
        if m_first_child p = NONE
        then (if m_last_child p \<noteq> NONE then Inl AssertFailed
              else raw_upd t7 iparent (\<lambda>n. n\<lparr>m_first_child := ichild, m_last_child := ichild\<rparr>))
        else rbind (raw t7 ichild) (\<lambda>c.
             rbind (if m_next_sibling c = m_first_child p
                    then raw_upd t7 iparent (\<lambda>n. n\<lparr>m_first_child := ichild\<rparr>)
                    else Inr t7) (\<lambda>t8.
             rbind (raw t8 ichild) (\<lambda>c'.
             rbind (raw t8 iparent) (\<lambda>p'.
             if m_prev_sibling c' = m_last_child p'
             then raw_upd t8 iparent (\<lambda>n. n\<lparr>m_last_child := ichild\<rparr>)
             else Inr t8))))))))))))))"

text \<open>\<^verbatim>\<open>Tree::_rem_hierarchy\<close>: the writes go to the parent and to the two siblings; the
  fields of \<open>w\<close> that are read (\<open>m_parent\<close>, \<open>m_prev_sibling\<close>, \<open>m_next_sibling\<close>) are not
  written.\<close>

definition priv_rem_hierarchy :: "Tree \<Rightarrow> size_t \<Rightarrow> Tree res" where
  "priv_rem_hierarchy t i =
     (if \<not> i < m_cap t then Inl AssertFailed
      else rbind (raw t i) (\<lambda>w.
        rbind (if m_parent w \<noteq> NONE
               then rbind (raw_upd t (m_parent w)
                             (\<lambda>p. if m_first_child p = i
                                  then p\<lparr>m_first_child := m_next_sibling w\<rparr> else p)) (\<lambda>t1.
                    raw_upd t1 (m_parent w)
                             (\<lambda>p. if m_last_child p = i
                                  then p\<lparr>m_last_child := m_prev_sibling w\<rparr> else p))
               else Inr t) (\<lambda>t2.
        rbind (if m_prev_sibling w \<noteq> NONE
               then p_upd t2 (m_prev_sibling w) (\<lambda>n. n\<lparr>m_next_sibling := m_next_sibling w\<rparr>)
               else Inr t2) (\<lambda>t3.
        if m_next_sibling w \<noteq> NONE
        then p_upd t3 (m_next_sibling w) (\<lambda>n. n\<lparr>m_prev_sibling := m_prev_sibling w\<rparr>)
        else Inr t3))))"

section \<open>Free list\<close>

text \<open>\<^verbatim>\<open>Tree::_free_list_add\<close>: add to the front of the free list.\<close>

definition priv_free_list_add :: "Tree \<Rightarrow> size_t \<Rightarrow> Tree res" where
  "priv_free_list_add t i =
     (if \<not> i < m_cap t then Inl AssertFailed
      else rbind (raw_upd t i (\<lambda>w. w\<lparr>m_parent := NONE, m_next_sibling := m_free_head t,
                                        m_prev_sibling := NONE\<rparr>)) (\<lambda>t1.
        rbind (if m_free_head t1 \<noteq> NONE
               then raw_upd t1 (m_free_head t1) (\<lambda>n. n\<lparr>m_prev_sibling := i\<rparr>)
               else Inr t1) (\<lambda>t2.
        Inr (if m_free_tail t2 = NONE
             then t2\<lparr>m_free_head := i, m_free_tail := i\<rparr>
             else t2\<lparr>m_free_head := i\<rparr>))))"

text \<open>\<^verbatim>\<open>Tree::_free_list_rem\<close>.\<close>

definition priv_free_list_rem :: "Tree \<Rightarrow> size_t \<Rightarrow> Tree res" where
  "priv_free_list_rem t i =
     rbind (if m_free_head t = i
            then rbind (priv_p t i) (\<lambda>n. Inr (t\<lparr>m_free_head := m_next_sibling n\<rparr>))
            else Inr t) (\<lambda>t1.
     priv_rem_hierarchy t1 i)"

text \<open>\<^verbatim>\<open>Tree::_release\<close>.\<close>

definition priv_release :: "Tree \<Rightarrow> size_t \<Rightarrow> Tree res" where
  "priv_release t i =
     (if \<not> i < m_cap t then Inl AssertFailed
      else rbind (priv_rem_hierarchy t i) (\<lambda>t1.
           rbind (priv_free_list_add t1 i) (\<lambda>t2.
           rbind (priv_clear t2 i) (\<lambda>t3.
           Inr (t3\<lparr>m_size := m_size t3 - 1\<rparr>)))))"

section \<open>Scalar arena\<close>

text \<open>Modelled from the spec: \<^verbatim>\<open>in_arena\<close> and \<^verbatim>\<open>_relocated\<close> are declared in
  \<^verbatim>\<open>tree.hpp\<close>, which is not among the sources.  Section 4.1: a span is in the arena by
  pointer range comparison against the buffer, and it is rewritten to the same offset
  and the same length in the new buffer.\<close>

definition in_arena :: "Tree \<Rightarrow> csubstr \<Rightarrow> bool" where
  "in_arena t s =
     (arena_str (m_arena t) \<le> str s \<and>
      str s + length (chars s) \<le> arena_str (m_arena t) + unat (arena_len (m_arena t)))"

definition priv_relocated :: "Tree \<Rightarrow> csubstr \<Rightarrow> substr \<Rightarrow> csubstr" where
  "priv_relocated t s next_arena = s\<lparr>str := arena_str next_arena + (str s - arena_str (m_arena t))\<rparr>"

text \<open>The body of the loop of \<^verbatim>\<open>Tree::_relocate\<close>: the four spans it rewrites.\<close>

definition relocate_node :: "Tree \<Rightarrow> substr \<Rightarrow> NodeData \<Rightarrow> NodeData" where
  "relocate_node t next_arena n =
     (let n1 = (if in_arena t (scalar (m_key n))
                then n\<lparr>m_key := (m_key n)\<lparr>scalar := priv_relocated t (scalar (m_key n)) next_arena\<rparr>\<rparr>
                else n);
          n2 = (if in_arena t (tag (m_key n1))
                then n1\<lparr>m_key := (m_key n1)\<lparr>tag := priv_relocated t (tag (m_key n1)) next_arena\<rparr>\<rparr>
                else n1);
          n3 = (if in_arena t (scalar (m_val n2))
                then n2\<lparr>m_val := (m_val n2)\<lparr>scalar := priv_relocated t (scalar (m_val n2)) next_arena\<rparr>\<rparr>
                else n2)
      in if in_arena t (tag (m_val n3))
         then n3\<lparr>m_val := (m_val n3)\<lparr>tag := priv_relocated t (tag (m_val n3)) next_arena\<rparr>\<rparr>
         else n3)"

text \<open>\<^verbatim>\<open>Tree::_relocate\<close>.  The \<^verbatim>\<open>memcpy\<close> of the used prefix makes the new buffer show the
  same characters at the same offsets; the loop visits the records \<open>0 .. m_cap - 1\<close>.\<close>

definition priv_relocate :: "Tree \<Rightarrow> substr \<Rightarrow> Tree res" where
  "priv_relocate t next_arena =
     (if length (m_buf t) < unat (m_cap t) then Inl OutOfBounds
      else Inr (t\<lparr>m_buf := map (relocate_node t next_arena) (take (unat (m_cap t)) (m_buf t))
                           @ drop (unat (m_cap t)) (m_buf t)\<rparr>))"

text \<open>The second half of \<^verbatim>\<open>Tree::reserve\<close>: \<^verbatim>\<open>if(arena_cap > m_arena.len) ...\<close>.\<close>

definition reserve_arena :: "Tree \<Rightarrow> size_t \<Rightarrow> Tree res" where
  "reserve_arena t arena_cap =
     (if arena_cap > arena_len (m_arena t)
      then (let (p, a) = allocate (m_alloc t) (unat arena_cap);
                buf = \<lparr>arena_str = p, arena_len = arena_cap\<rparr>;
                t1 = t\<lparr>m_alloc := a\<rparr>
            in rbind (if arena_str (m_arena t1) \<noteq> 0
                      then rbind (priv_relocate t1 buf) (\<lambda>t2.
                           Inr (t2\<lparr>m_alloc := free_block (m_alloc t2) (arena_str (m_arena t2))
                                                  (unat (arena_len (m_arena t2)))\<rparr>))
                      else Inr t1) (\<lambda>t3.
               Inr (t3\<lparr>m_arena := buf\<rparr>)))
      else Inr t)"

section \<open>Claiming nodes and growing the node buffer\<close>

lemma raw_upd_frame:
  "raw_upd t i f = Inr t' \<Longrightarrow>
     m_cap t' = m_cap t \<and> m_size t' = m_size t \<and> m_free_head t' = m_free_head t \<and>
     m_free_tail t' = m_free_tail t \<and> length (m_buf t') = length (m_buf t)"
  by (auto simp: raw_upd_def split: if_splits)

lemma p_upd_frame:
  "p_upd t i f = Inr t' \<Longrightarrow>
     m_cap t' = m_cap t \<and> m_size t' = m_size t \<and> m_free_head t' = m_free_head t \<and>
     m_free_tail t' = m_free_tail t \<and> length (m_buf t') = length (m_buf t)"
  by (auto simp: p_upd_def dest: raw_upd_frame split: if_splits)

lemma clear_range_loop_frame:
  "clear_range_loop t i e = Inr t' \<Longrightarrow>
     m_cap t' = m_cap t \<and> m_size t' = m_size t \<and> m_free_head t' = m_free_head t \<and>
     m_free_tail t' = m_free_tail t \<and> length (m_buf t') = length (m_buf t)"
proof (induction t i e rule: clear_range_loop.induct)
  case (1 t i e)
  show ?case
  proof (cases "i < e")
    case True
    with "1.prems" obtain t1 t2 where
      a: "priv_clear t i = Inr t1" and
      b: "raw_upd t1 i (\<lambda>n. n\<lparr>m_prev_sibling := i - 1, m_next_sibling := i + 1\<rparr>) = Inr t2" and
      c: "clear_range_loop t2 (i + 1) e = Inr t'"
      by (subst (asm) clear_range_loop.simps) (auto simp: rbind_eq_Inr)
    from "1.IH" [OF True a b c] p_upd_frame [OF a [unfolded priv_clear_def]] raw_upd_frame [OF b]
    show ?thesis by simp
  next
    case False
    with "1.prems" show ?thesis
      by (subst (asm) clear_range_loop.simps) simp
  qed
qed

lemma priv_clear_range_frame:
  "priv_clear_range t first num = Inr t' \<Longrightarrow>
     m_cap t' = m_cap t \<and> m_size t' = m_size t \<and> m_free_head t' = m_free_head t \<and>
     m_free_tail t' = m_free_tail t \<and> length (m_buf t') = length (m_buf t)"
  unfolding priv_clear_range_def
  by (auto simp: rbind_eq_Inr memset_nodes_def split: if_splits
      dest!: clear_range_loop_frame raw_upd_frame)

lemma not_NONE_less [simp]: "\<not> NONE < (x :: size_t)"
  by (simp add: NONE_def)

lemma less_unat_nonzero: "(a :: size_t) < b \<Longrightarrow> unat b = 0 \<Longrightarrow> False"
  by (simp add: word_less_nat_alt)

text \<open>
  The first half of \<^verbatim>\<open>Tree::reserve\<close>, up to and including \<^verbatim>\<open>_clear_range(first, del)\<close>,
  for \<open>cap > m_cap\<close>: the free list is extended, the new block holds the \<open>m_cap\<close> old
  records (\<^verbatim>\<open>memcpy\<close>) followed by the new ones, and the new ones are cleared and linked.
\<close>

definition reserve_grow :: "Tree \<Rightarrow> size_t \<Rightarrow> Tree res" where
  "reserve_grow t cap =
     rbind (if m_free_head t = NONE
            then (if m_free_tail t = m_free_head t
                  then Inr (t\<lparr>m_free_head := m_cap t, m_free_tail := cap\<rparr>)
                  else Inl AssertFailed)
            else (if m_buf t = [] \<or> m_free_tail t = NONE then Inl AssertFailed
                  else raw_upd t (m_free_tail t) (\<lambda>n. n\<lparr>m_next_sibling := m_cap t\<rparr>))) (\<lambda>t1.
     if m_buf t1 \<noteq> [] \<and> length (m_buf t1) < unat (m_cap t1) then Inl OutOfBounds
     else let buf = (if m_buf t1 \<noteq> [] then take (unat (m_cap t1)) (m_buf t1)
                     else replicate (unat (m_cap t1)) zero_node)
                    @ replicate (unat cap - unat (m_cap t1)) zero_node;
              first = m_cap t1;
              del = cap - m_cap t1
          in priv_clear_range (t1\<lparr>m_cap := cap, m_buf := buf\<rparr>) first del)"

lemma reserve_grow_frame:
  "reserve_grow t cap = Inr t' \<Longrightarrow> m_cap t < cap \<Longrightarrow>
     m_cap t' = cap \<and> m_size t' = m_size t \<and> m_free_head t' \<noteq> NONE \<and> m_buf t' \<noteq> []"
  unfolding reserve_grow_def
  by (auto simp: rbind_eq_Inr Let_def split: if_splits
      dest!: priv_clear_range_frame raw_upd_frame dest: less_unat_nonzero)

text \<open>
  \<^verbatim>\<open>Tree::_claim\<close>, \<^verbatim>\<open>Tree::_claim_root\<close> and \<^verbatim>\<open>Tree::reserve\<close> call each other:
  \<^verbatim>\<open>_claim\<close> grows the buffer when the free list is empty, and \<^verbatim>\<open>reserve\<close> claims the
  root when the tree has no node.  The recursion ends because \<^verbatim>\<open>reserve\<close> leaves a
  nonempty free list and a buffer before it claims the root.
\<close>

function priv_claim :: "Tree \<Rightarrow> (size_t \<times> Tree) res"
  and priv_claim_root :: "Tree \<Rightarrow> Tree res"
  and reserve :: "Tree \<Rightarrow> size_t \<Rightarrow> size_t \<Rightarrow> Tree res"
where
  "priv_claim t =
     rbind (if m_free_head t = NONE \<or> m_buf t = []
            then rbind (reserve t (if 2 * m_cap t \<noteq> 0 then 2 * m_cap t else 16) 0) (\<lambda>t1.
                 if m_free_head t1 \<noteq> NONE then Inr t1 else Inl AssertFailed)
            else Inr t) (\<lambda>t1.
     if \<not> m_size t1 < m_cap t1 then Inl AssertFailed
     else if \<not> m_free_head t1 < m_cap t1 then Inl AssertFailed
     else rbind (raw t1 (m_free_head t1)) (\<lambda>child.
          let ichild = m_free_head t1;
              t2 = t1\<lparr>m_size := m_size t1 + 1, m_free_head := m_next_sibling child\<rparr>
          in rbind (if m_free_head t2 = NONE
                    then (if m_size t2 = m_cap t2 then Inr (t2\<lparr>m_free_tail := NONE\<rparr>)
                          else Inl AssertFailed)
                    else Inr t2) (\<lambda>t3.
             rbind (priv_clear t3 ichild) (\<lambda>t4.
             Inr (ichild, t4)))))"
| "priv_claim_root t =
     rbind (priv_claim t) (\<lambda>(r, t1).
     if r \<noteq> 0 then Inl AssertFailed else priv_set_hierarchy t1 r NONE NONE)"
| "reserve t cap arena_cap =
     rbind (if cap > m_cap t
            then rbind (reserve_grow t cap) (\<lambda>t2.
                 if m_size t2 = 0 then priv_claim_root t2 else Inr t2)
            else Inr t) (\<lambda>t3.
     reserve_arena t3 arena_cap)"
  by pat_completeness auto
termination
proof (relation "measure (\<lambda>x. case x of
            Inl t \<Rightarrow> (if m_free_head t = NONE \<or> m_buf t = [] then 3 else 0)
          | Inr (Inl t) \<Rightarrow> (if m_free_head t = NONE \<or> m_buf t = [] then 4 else 1)
          | Inr (Inr (t, cap, arena_cap)) \<Rightarrow> 2)", goal_cases)
  case 1
  show ?case by simp
next
  case (2 t)
  then show ?case by simp
next
  case (3 t)
  show ?case by simp
next
  case (4 t cap arena_cap t2)
  from reserve_grow_frame [OF 4(2) 4(1)] show ?case by simp
qed

declare priv_claim.simps [simp del] priv_claim_root.simps [simp del] reserve.simps [simp del]

text \<open>\<^verbatim>\<open>Tree::clear\<close>.\<close>

definition clear :: "Tree \<Rightarrow> Tree res" where
  "clear t =
     rbind (priv_clear_range t 0 (m_cap t)) (\<lambda>t1.
     if m_buf t1 \<noteq> []
     then priv_claim_root (t1\<lparr>m_size := 0, m_free_head := 0, m_free_tail := m_cap t1\<rparr>)
     else Inr (t1\<lparr>m_size := 0, m_free_head := NONE, m_free_tail := NONE\<rparr>))"

lemma list_update_Cons_numeral [simp]:
  "(x # xs)[numeral k := y] = x # xs[pred_numeral k := y]"
  by (simp add: numeral_eq_Suc)

lemma replicate_numeral [simp]:
  "replicate (numeral k) x = x # replicate (pred_numeral k) x"
  by (simp add: numeral_eq_Suc)

section \<open>Properties of the node store\<close>

lemma word_less_succ_iff:
  "(i :: size_t) < e \<Longrightarrow> (j < i + 1) = (j \<le> i)"
  by (auto simp: word_less_nat_alt word_le_nat_alt unat_succ_less)

lemma word_succ_le_iff:
  "(i :: size_t) < e \<Longrightarrow> (i + 1 \<le> j) = (i < j)"
  by (auto simp: word_less_nat_alt word_le_nat_alt unat_succ_less)

lemma less_cap_not_NONE: "(i :: size_t) < c \<Longrightarrow> i \<noteq> NONE"
  by (auto simp: NONE_def)

lemma unat_neq: "(j :: size_t) \<noteq> i \<Longrightarrow> unat i \<noteq> unat j"
  by (simp add: word_unat_eq_iff)

lemma clear_range_loop_result:
  assumes "i \<le> e" "e \<le> m_cap t" "unat (m_cap t) \<le> length (m_buf t)"
  shows "\<exists>t'. clear_range_loop t i e = Inr t' \<and>
           t' = t\<lparr>m_buf := m_buf t'\<rparr> \<and> length (m_buf t') = length (m_buf t) \<and>
           (\<forall>j :: size_t. unat j < length (m_buf t) \<longrightarrow>
              m_buf t' ! unat j =
                (if i \<le> j \<and> j < e
                 then (cleared (m_buf t ! unat j))\<lparr>m_prev_sibling := j - 1, m_next_sibling := j + 1\<rparr>
                 else m_buf t ! unat j))"
  using assms
proof (induction t i e rule: clear_range_loop.induct)
  case (1 t i e)
  show ?case
  proof (cases "i < e")
    case False
    with "1.prems" have "i = e" by simp
    then show ?thesis
      by (subst clear_range_loop.simps) auto
  next
    case True
    with "1.prems" have icap: "i < m_cap t" and inone: "i \<noteq> NONE"
      by (auto dest: less_cap_not_NONE)
    with "1.prems" have ilen: "unat i < length (m_buf t)"
      by (simp add: word_less_nat_alt)
    define t1 where "t1 = t\<lparr>m_buf := (m_buf t)[unat i := cleared (m_buf t ! unat i)]\<rparr>"
    define t2 where "t2 = t1\<lparr>m_buf := (m_buf t1)[unat i :=
        (m_buf t1 ! unat i)\<lparr>m_prev_sibling := i - 1, m_next_sibling := i + 1\<rparr>]\<rparr>"
    have a: "priv_clear t i = Inr t1"
      using icap inone ilen by (simp add: priv_clear_def p_upd_def raw_upd_def t1_def)
    have b: "raw_upd t1 i (\<lambda>n. n\<lparr>m_prev_sibling := i - 1, m_next_sibling := i + 1\<rparr>) = Inr t2"
      using ilen by (simp add: raw_upd_def t1_def t2_def)
    have pre: "i + 1 \<le> e" "e \<le> m_cap t2" "unat (m_cap t2) \<le> length (m_buf t2)"
      using True "1.prems" by (simp_all add: inc_le t1_def t2_def)
    from "1.IH" [OF True a b pre] obtain t' where
      r: "clear_range_loop t2 (i + 1) e = Inr t'" and
      eq: "t' = t2\<lparr>m_buf := m_buf t'\<rparr>" and
      len: "length (m_buf t') = length (m_buf t2)" and
      nodes: "\<forall>j :: size_t. unat j < length (m_buf t2) \<longrightarrow>
              m_buf t' ! unat j =
                (if i + 1 \<le> j \<and> j < e
                 then (cleared (m_buf t2 ! unat j))\<lparr>m_prev_sibling := j - 1, m_next_sibling := j + 1\<rparr>
                 else m_buf t2 ! unat j)"
      by blast
    have res: "clear_range_loop t i e = Inr t'"
      using True a b r by (subst clear_range_loop.simps) simp
    have eq': "t' = t\<lparr>m_buf := m_buf t'\<rparr>"
      by (subst eq) (simp add: t1_def t2_def)
    have len': "length (m_buf t') = length (m_buf t)"
      using len by (simp add: t1_def t2_def)
    have t2i: "m_buf t2 ! unat i = (cleared (m_buf t ! unat i))\<lparr>m_prev_sibling := i - 1, m_next_sibling := i + 1\<rparr>"
      using ilen by (simp add: t1_def t2_def)
    have t2j: "\<And>j :: size_t. j \<noteq> i \<Longrightarrow> m_buf t2 ! unat j = m_buf t ! unat j"
      by (simp add: t1_def t2_def unat_neq)
    have "\<forall>j :: size_t. unat j < length (m_buf t) \<longrightarrow>
              m_buf t' ! unat j =
                (if i \<le> j \<and> j < e
                 then (cleared (m_buf t ! unat j))\<lparr>m_prev_sibling := j - 1, m_next_sibling := j + 1\<rparr>
                 else m_buf t ! unat j)"
    proof (intro allI impI)
      fix j :: size_t assume j: "unat j < length (m_buf t)"
      then have "unat j < length (m_buf t2)" by (simp add: t1_def t2_def)
      with nodes have n: "m_buf t' ! unat j =
                (if i + 1 \<le> j \<and> j < e
                 then (cleared (m_buf t2 ! unat j))\<lparr>m_prev_sibling := j - 1, m_next_sibling := j + 1\<rparr>
                 else m_buf t2 ! unat j)" by blast
      show "m_buf t' ! unat j =
                (if i \<le> j \<and> j < e
                 then (cleared (m_buf t ! unat j))\<lparr>m_prev_sibling := j - 1, m_next_sibling := j + 1\<rparr>
                 else m_buf t ! unat j)"
      proof (cases "j = i")
        case True
        with n \<open>i < e\<close> t2i show ?thesis
          by (simp add: word_succ_le_iff [OF \<open>i < e\<close>])
      next
        case False
        with n t2j [OF False] \<open>i < e\<close> show ?thesis
          by (auto simp: word_succ_le_iff [OF \<open>i < e\<close>])
      qed
    qed
    with res eq' len' show ?thesis by blast
  qed
qed


text \<open>\<open>only_buf t t'\<close>: the two states differ at most in the contents of the records.\<close>

definition only_buf :: "Tree \<Rightarrow> Tree \<Rightarrow> bool" where
  "only_buf t t' = (t' = t\<lparr>m_buf := m_buf t'\<rparr> \<and> length (m_buf t') = length (m_buf t))"

lemma only_buf_refl [simp]: "only_buf t t"
  by (simp add: only_buf_def)

lemma only_buf_trans: "only_buf t t1 \<Longrightarrow> only_buf t1 t2 \<Longrightarrow> only_buf t t2"
  by (cases t, cases t1, cases t2) (simp add: only_buf_def)

lemma only_buf_fields:
  "only_buf t t' \<Longrightarrow> m_cap t' = m_cap t \<and> m_size t' = m_size t \<and>
     m_free_head t' = m_free_head t \<and> m_free_tail t' = m_free_tail t \<and>
     m_arena t' = m_arena t \<and> m_arena_pos t' = m_arena_pos t \<and> m_alloc t' = m_alloc t \<and>
     length (m_buf t') = length (m_buf t)"
  by (cases t, cases t') (simp add: only_buf_def)

lemma raw_upd_only_buf: "raw_upd t i f = Inr t' \<Longrightarrow> only_buf t t'"
  by (auto simp: raw_upd_def only_buf_def split: if_splits)

lemma p_upd_only_buf: "p_upd t i f = Inr t' \<Longrightarrow> only_buf t t'"
  by (auto simp: p_upd_def dest: raw_upd_only_buf split: if_splits)

lemma if_raw_upd_only_buf:
  "(if c then raw_upd t i f else Inr t) = Inr t' \<Longrightarrow> only_buf t t'"
  by (auto dest: raw_upd_only_buf split: if_splits)

lemma priv_set_hierarchy_root:
  "priv_set_hierarchy t c NONE NONE =
     rbind (get t c) (\<lambda>child.
       if child = None then Inl OutOfBounds
       else rbind (raw_upd t c (\<lambda>n. n\<lparr>m_parent := NONE, m_prev_sibling := NONE,
                                          m_next_sibling := NONE\<rparr>)) (\<lambda>t1.
            if c = 0 then Inr t1 else Inl AssertFailed))"
  by (simp add: priv_set_hierarchy_def cong: if_cong)

lemma priv_set_hierarchy_root_only_buf:
  "priv_set_hierarchy t c NONE NONE = Inr t' \<Longrightarrow> only_buf t t'"
  by (auto simp: priv_set_hierarchy_root rbind_eq_Inr split: if_splits dest: raw_upd_only_buf)

lemma priv_claim_nonempty:
  assumes "m_free_head t \<noteq> NONE" "m_buf t \<noteq> []"
  shows "priv_claim t =
     (if \<not> m_size t < m_cap t then Inl AssertFailed
      else if \<not> m_free_head t < m_cap t then Inl AssertFailed
      else rbind (raw t (m_free_head t)) (\<lambda>child.
          let ichild = m_free_head t;
              t2 = t\<lparr>m_size := m_size t + 1, m_free_head := m_next_sibling child\<rparr>
          in rbind (if m_free_head t2 = NONE
                    then (if m_size t2 = m_cap t2 then Inr (t2\<lparr>m_free_tail := NONE\<rparr>)
                          else Inl AssertFailed)
                    else Inr t2) (\<lambda>t3.
             rbind (priv_clear t3 ichild) (\<lambda>t4.
             Inr (ichild, t4)))))"
  using assms by (subst priv_claim.simps) simp

text \<open>What a successful pop leaves: the head record cleared, the head moved to its
  \<open>m_next_sibling\<close>, the size incremented, the tail reset when the list became empty.\<close>

definition popped :: "Tree \<Rightarrow> Tree" where
  "popped t =
     (let h = m_free_head t; nx = m_next_sibling (m_buf t ! unat h)
      in t\<lparr>m_buf := (m_buf t)[unat h := cleared (m_buf t ! unat h)],
            m_size := m_size t + 1,
            m_free_head := nx,
            m_free_tail := (if nx = NONE then NONE else m_free_tail t)\<rparr>)"

lemma priv_claim_pop_eq:
  assumes "m_free_head t \<noteq> NONE" "m_buf t \<noteq> []"
    and "priv_claim t = Inr (i, t')"
  shows "i = m_free_head t \<and> t' = popped t \<and> i < m_cap t \<and> unat i < length (m_buf t)"
  using assms(3) unfolding priv_claim_nonempty [OF assms(1,2)]
  by (auto simp: rbind_eq_Inr Let_def raw_def priv_clear_def p_upd_def raw_upd_def popped_def
      split: if_splits)

lemma priv_claim_pop_returns:
  assumes "m_free_head t \<noteq> NONE" "m_buf t \<noteq> []"
    and "m_size t < m_cap t" "m_free_head t < m_cap t"
    and "unat (m_free_head t) < length (m_buf t)"
    and "m_next_sibling (m_buf t ! unat (m_free_head t)) = NONE \<longrightarrow> m_size t + 1 = m_cap t"
  shows "priv_claim t = Inr (m_free_head t, popped t)"
  using assms(3-) unfolding priv_claim_nonempty [OF assms(1,2)]
  by (auto simp: rbind_eq_Inr Let_def raw_def priv_clear_def p_upd_def raw_upd_def popped_def)


lemma popped_fields:
  "m_cap (popped t) = m_cap t" "length (m_buf (popped t)) = length (m_buf t)"
  "m_size (popped t) = m_size t + 1"
  by (simp_all add: popped_def Let_def)

lemma reserve_arena_zero [simp]: "reserve_arena t 0 = Inr t"
  by (simp add: reserve_arena_def)

lemma priv_claim_root_nonempty:
  assumes "m_free_head t \<noteq> NONE" "m_buf t \<noteq> []" "priv_claim_root t = Inr t'"
  shows "m_cap t' = m_cap t \<and> m_buf t' \<noteq> []"
proof -
  from assms(3) obtain r t1 where
    c: "priv_claim t = Inr (r, t1)" and h: "priv_set_hierarchy t1 r NONE NONE = Inr t'"
    by (subst (asm) priv_claim_root.simps) (auto simp: rbind_eq_Inr split: if_splits prod.splits)
  from priv_claim_pop_eq [OF assms(1,2) c] have "t1 = popped t" by simp
  with popped_fields [of t] only_buf_fields [OF priv_set_hierarchy_root_only_buf [OF h]] assms(2)
  show ?thesis by auto
qed

lemma reserve_grows:
  assumes "m_cap t < cap" "reserve t cap 0 = Inr t1"
  shows "m_cap t1 = cap \<and> m_buf t1 \<noteq> []"
proof -
  from assms obtain t2 where
    g: "reserve_grow t cap = Inr t2" and
    r: "(if m_size t2 = 0 then priv_claim_root t2 else Inr t2) = Inr t1"
    by (subst (asm) reserve.simps) (auto simp: rbind_eq_Inr)
  from reserve_grow_frame [OF g assms(1)] have
    f: "m_cap t2 = cap" "m_free_head t2 \<noteq> NONE" "m_buf t2 \<noteq> []" by simp_all
  show ?thesis
  proof (cases "m_size t2 = 0")
    case True
    with r priv_claim_root_nonempty [OF f(2,3)] f(1) show ?thesis by auto
  next
    case False
    with r f show ?thesis by simp
  qed
qed

lemma reserve_no_growth: "\<not> m_cap t < cap \<Longrightarrow> reserve t cap 0 = Inr t"
  by (subst reserve.simps) simp

lemma double_no_overflow:
  "(c :: size_t) < 2 * c \<Longrightarrow> unat (2 * c) = 2 * unat c"
proof -
  assume a: "c < 2 * c"
  have "unat (2 * c) = (2 * unat c) mod 2 ^ 64"
    by (simp add: unat_word_ariths)
  moreover have "unat c < 2 ^ 64"
    using unsigned_less [of c] by simp
  ultimately show ?thesis
    using a by (auto simp: word_less_nat_alt mod_if split: if_splits)
qed

lemma small_double_zero:
  "(c :: size_t) < 16 \<Longrightarrow> 2 * c = 0 \<Longrightarrow> c = 0"
proof -
  assume a: "c < 16" and b: "2 * c = 0"
  have "unat (2 * c) = (2 * unat c) mod 2 ^ 64"
    by (simp add: unat_word_ariths)
  moreover from a have "unat c < 16"
    by (simp add: word_less_nat_alt)
  ultimately have "unat c = 0"
    using b by simp
  then show ?thesis
    by (simp add: unat_eq_zero)
qed

lemma priv_claim_grows:
  assumes "m_free_head t = NONE" "priv_claim t = Inr (i, t')"
  shows "m_cap t < m_cap t' \<and>
         m_cap t' = (if m_cap t = 0 then 16 else 2 * m_cap t) \<and>
         unat (m_cap t') = (if m_cap t = 0 then 16 else 2 * unat (m_cap t)) \<and>
         (\<exists>t1. reserve t (m_cap t') 0 = Inr t1 \<and> m_free_head t1 \<noteq> NONE \<and> m_buf t1 \<noteq> [] \<and>
               priv_claim t1 = Inr (i, t') \<and> i = m_free_head t1)"
proof -
  define sz where "sz = (if 2 * m_cap t \<noteq> 0 then 2 * m_cap t else 16)"
  from assms obtain t1 where
    r: "reserve t sz 0 = Inr t1" and h: "m_free_head t1 \<noteq> NONE" and
    p: "(if \<not> m_size t1 < m_cap t1 then Inl AssertFailed
      else if \<not> m_free_head t1 < m_cap t1 then Inl AssertFailed
      else rbind (raw t1 (m_free_head t1)) (\<lambda>child.
          let ichild = m_free_head t1;
              t2 = t1\<lparr>m_size := m_size t1 + 1, m_free_head := m_next_sibling child\<rparr>
          in rbind (if m_free_head t2 = NONE
                    then (if m_size t2 = m_cap t2 then Inr (t2\<lparr>m_free_tail := NONE\<rparr>)
                          else Inl AssertFailed)
                    else Inr t2) (\<lambda>t3.
             rbind (priv_clear t3 ichild) (\<lambda>t4.
             Inr (ichild, t4))))) = Inr (i, t')"
    by (subst (asm) priv_claim.simps) (auto simp: rbind_eq_Inr sz_def split: if_splits)
  have lt: "m_cap t < sz"
  proof (rule ccontr)
    assume "\<not> m_cap t < sz"
    with reserve_no_growth [of t sz] r have "t1 = t" by simp
    with h assms(1) show False by simp
  qed
  from reserve_grows [OF lt r] have g: "m_cap t1 = sz" "m_buf t1 \<noteq> []" by simp_all
  have c: "priv_claim t1 = Inr (i, t')"
    using p by (simp add: priv_claim_nonempty [OF h g(2)])
  from priv_claim_pop_eq [OF h g(2) c] have e: "i = m_free_head t1" "t' = popped t1" by simp_all
  then have cap': "m_cap t' = sz" using g popped_fields by simp
  have szv: "sz = (if m_cap t = 0 then 16 else 2 * m_cap t)"
    using lt by (auto simp: sz_def dest: small_double_zero)
  have "unat sz = (if m_cap t = 0 then 16 else 2 * unat (m_cap t))"
    using lt szv by (auto simp: double_no_overflow)
  with lt cap' szv r h g c e show ?thesis by auto
qed


lemma first_claim_returns_root:
  assumes cap: "0 < cap"
  shows "\<exists>t1 t2. reserve_grow (Tree_new a) cap = Inr t1 \<and> m_size t1 = 0 \<and>
           priv_claim t1 = Inr (0, t2)"
proof -
  define t0 where "t0 = (Tree_new a)\<lparr>m_free_head := 0, m_free_tail := cap, m_cap := cap,
                          m_buf := replicate (unat cap) zero_node\<rparr>"
  have ucap: "0 < unat cap"
    using cap by (simp add: word_less_nat_alt)
  have g: "reserve_grow (Tree_new a) cap = priv_clear_range t0 0 cap"
    by (simp add: reserve_grow_def Tree_new_def t0_def)
  have m: "memset_nodes t0 0 cap = Inr t0"
    by (simp add: memset_nodes_def t0_def)
  from clear_range_loop_result [of 0 cap t0] obtain tl where
    l: "clear_range_loop t0 0 cap = Inr tl" and
    eq: "tl = t0\<lparr>m_buf := m_buf tl\<rparr>" and
    len: "length (m_buf tl) = length (m_buf t0)" and
    nodes: "\<forall>j :: size_t. unat j < length (m_buf t0) \<longrightarrow>
              m_buf tl ! unat j =
                (if 0 \<le> j \<and> j < cap
                 then (cleared (m_buf t0 ! unat j))\<lparr>m_prev_sibling := j - 1, m_next_sibling := j + 1\<rparr>
                 else m_buf t0 ! unat j)"
    by (auto simp: t0_def)
  have len': "length (m_buf tl) = unat cap"
    using len by (simp add: t0_def)
  have last: "unat (cap - 1) < length (m_buf tl)"
    using cap ucap len' by (simp add: unat_minus_one)
  define t1 where "t1 = tl\<lparr>m_buf := (m_buf tl)[unat (cap - 1) :=
                              (m_buf tl ! unat (cap - 1))\<lparr>m_next_sibling := NONE\<rparr>]\<rparr>"
  have r: "priv_clear_range t0 0 cap = Inr t1"
    using cap m l last by (simp add: priv_clear_range_def t0_def raw_upd_def t1_def)
  have f: "m_size t1 = 0" "m_cap t1 = cap" "m_free_head t1 = 0" "length (m_buf t1) = unat cap"
    using len' by (subst t1_def, subst eq, simp add: t0_def Tree_new_def)+
  have n0: "m_buf tl ! unat (0 :: size_t) =
      (cleared zero_node)\<lparr>m_prev_sibling := 0 - 1, m_next_sibling := 0 + 1\<rparr>"
    using nodes [rule_format, of 0] ucap cap by (simp add: t0_def)
  have ftl: "m_free_head tl = 0"
    by (subst eq) (simp add: t0_def)
  have nx: "m_next_sibling (m_buf t1 ! unat (m_free_head t1)) = (if cap = 1 then NONE else 1)"
  proof (cases "cap = 1")
    case True
    with len' show ?thesis by (simp add: ftl t1_def)
  next
    case False
    then have "unat (cap - 1) \<noteq> 0"
      using cap by (simp add: unat_minus_one unat_eq_zero word_less_nat_alt
                       flip: word_unat_eq_iff)
    with n0 False show ?thesis by (simp add: ftl t1_def)
  qed
  have "priv_claim t1 = Inr (m_free_head t1, popped t1)"
  proof (rule priv_claim_pop_returns)
    show "m_free_head t1 \<noteq> NONE" by (simp add: f NONE_def)
    show "m_buf t1 \<noteq> []" using f(4) ucap by auto
    show "m_size t1 < m_cap t1" using cap by (simp add: f)
    show "m_free_head t1 < m_cap t1" using cap by (simp add: f)
    show "unat (m_free_head t1) < length (m_buf t1)" using ucap by (simp add: f)
    show "m_next_sibling (m_buf t1 ! unat (m_free_head t1)) = NONE \<longrightarrow> m_size t1 + 1 = m_cap t1"
      by (simp add: nx f(1,2) NONE_def)
  qed
  with g r f show ?thesis by simp
qed

section \<open>Evaluation on concrete trees\<close>

lemmas eval_defs = raw_def raw_upd_def priv_p_def p_upd_def get_def node_type_def parent_def
  first_child_def last_child_def next_sibling_def prev_sibling_def priv_clear_def cleared_def
  zero_node_def memset_nodes_def clear_range_loop.simps priv_clear_range_def
  priv_set_hierarchy_def priv_rem_hierarchy_def priv_free_list_add_def priv_free_list_rem_def
  priv_release_def reserve_arena_def reserve_grow_def priv_claim.simps priv_claim_root.simps
  reserve.simps Tree_new_def NONE_def Let_def clear_scalar_def empty_csubstr_def NOTYPE_def

text \<open>An allocator whose first block starts at address 4096.\<close>

definition alloc0 :: Allocator where
  "alloc0 = \<lparr>brk = 4096, freed = []\<rparr>"

section \<open>C7: the free list's tail\<close>

text \<open>
  C7 states that in every state reached by \<^verbatim>\<open>reserve\<close>, \<^verbatim>\<open>claim\<close>, \<^verbatim>\<open>release\<close> and
  \<^verbatim>\<open>clear\<close> the fields \<open>free_head\<close> and \<open>free_tail\<close> are valid slot handles or \<^verbatim>\<open>NONE\<close>, and
  that \<open>free_tail\<close> is the handle of the last free slot.
  The code does not keep this: the first \<^verbatim>\<open>reserve(4)\<close> on a new tree returns with
  \<open>m_free_tail = 4 = m_cap\<close>, one past the last slot, while the last free slot is \<open>3\<close>
  (its \<open>m_next_sibling\<close> is \<^verbatim>\<open>NONE\<close>).  The other branch of \<^verbatim>\<open>reserve\<close> then uses the tail as
  an index: growing the same tree to \<open>8\<close> writes \<^verbatim>\<open>m_buf[4]\<close> in the block of four records.
\<close>

theorem reserve_free_tail_past_end:
  "\<exists>t. reserve (Tree_new alloc0) 4 0 = Inr t \<and>
        m_cap t = 4 \<and> m_size t = 1 \<and> m_free_head t = 1 \<and>
        m_free_tail t = 4 \<and> m_free_tail t \<noteq> NONE \<and> \<not> m_free_tail t < m_cap t \<and>
        next_sibling t 1 = Inr 2 \<and> next_sibling t 2 = Inr 3 \<and> next_sibling t 3 = Inr NONE \<and>
        reserve t 8 0 = Inl OutOfBounds"
  by (simp add: eval_defs alloc0_def)

section \<open>C8: claiming a node\<close>

lemma priv_claim_after_reserve:
  assumes "m_free_head t = NONE"
    and "reserve t (if 2 * m_cap t \<noteq> 0 then 2 * m_cap t else 16) 0 = Inr t1"
    and "m_free_head t1 \<noteq> NONE" "m_buf t1 \<noteq> []"
  shows "priv_claim t = priv_claim t1"
  using assms by (subst priv_claim.simps) (simp add: priv_claim_nonempty)

lemma reserve_grow_full:
  assumes h: "m_free_head t = NONE" "m_free_tail t = NONE"
    and c: "0 < m_cap t" "m_cap t < cap"
    and l: "length (m_buf t) = unat (m_cap t)"
  shows "\<exists>t1. reserve_grow t cap = Inr t1 \<and> m_cap t1 = cap \<and> m_size t1 = m_size t \<and>
           m_free_head t1 = m_cap t \<and> m_free_tail t1 = cap \<and> length (m_buf t1) = unat cap \<and>
           (\<forall>j :: size_t. j < m_cap t \<longrightarrow> m_buf t1 ! unat j = m_buf t ! unat j) \<and>
           m_buf t1 ! unat (m_cap t) =
             (cleared zero_node)\<lparr>m_prev_sibling := m_cap t - 1,
                m_next_sibling := (if m_cap t + 1 = cap then NONE else m_cap t + 1)\<rparr>"
proof -
  define t0 where "t0 = t\<lparr>m_free_head := (m_cap t), m_free_tail := cap, m_cap := cap,
      m_buf := m_buf t @ replicate (unat cap - unat (m_cap t)) zero_node\<rparr>"
  have uo: "0 < unat (m_cap t)" "unat (m_cap t) < unat cap"
    using c by (simp_all add: word_less_nat_alt)
  have ne: "m_buf t \<noteq> []"
    using l uo by (auto simp:)
  have num: "unat (cap - (m_cap t)) = unat cap - unat (m_cap t)" "cap - (m_cap t) \<noteq> 0" "(m_cap t) + (cap - (m_cap t)) = cap"
    using c by (auto simp: unat_sub word_le_nat_alt word_less_nat_alt)
  have g: "reserve_grow t cap = priv_clear_range t0 (m_cap t) (cap - (m_cap t))"
    using h ne l by (simp add: reserve_grow_def t0_def)
  have len0: "length (m_buf t0) = unat cap"
    using l uo by (simp add: t0_def)
  have m: "memset_nodes t0 (m_cap t) (cap - (m_cap t)) = Inr t0"
    using l uo num by (simp add: memset_nodes_def t0_def)
  have pre: "m_cap t \<le> cap" "cap \<le> m_cap t0" "unat (m_cap t0) \<le> length (m_buf t0)"
    using c len0 by (simp_all add: t0_def)
  from clear_range_loop_result [OF pre] obtain tl where
    lp: "clear_range_loop t0 (m_cap t) cap = Inr tl" and
    eq: "tl = t0\<lparr>m_buf := m_buf tl\<rparr>" and
    len: "length (m_buf tl) = length (m_buf t0)" and
    nodes: "\<forall>j :: size_t. unat j < length (m_buf t0) \<longrightarrow>
              m_buf tl ! unat j =
                (if (m_cap t) \<le> j \<and> j < cap
                 then (cleared (m_buf t0 ! unat j))\<lparr>m_prev_sibling := j - 1, m_next_sibling := j + 1\<rparr>
                 else m_buf t0 ! unat j)"
    by blast
  have len': "length (m_buf tl) = unat cap"
    using len len0 by simp
  have "cap \<noteq> 0"
    using uo by auto
  then have ul: "unat (cap - 1) = unat cap - 1"
    by (simp add: unat_minus_one)
  then have lst: "unat (cap - 1) < length (m_buf tl)"
    using uo len' by simp
  define t1 where "t1 = tl\<lparr>m_buf := (m_buf tl)[unat (cap - 1) :=
                              (m_buf tl ! unat (cap - 1))\<lparr>m_next_sibling := NONE\<rparr>]\<rparr>"
  have r: "priv_clear_range t0 (m_cap t) (cap - (m_cap t)) = Inr t1"
    using num m lp lst by (simp add: priv_clear_range_def t0_def raw_upd_def t1_def)
  have f: "m_cap t1 = cap" "m_size t1 = m_size t" "m_free_head t1 = (m_cap t)" "m_free_tail t1 = cap"
    "length (m_buf t1) = unat cap"
    using len' by (subst t1_def, subst eq, simp add: t0_def)+
  have below: "\<forall>j :: size_t. j < (m_cap t) \<longrightarrow> m_buf t1 ! unat j = m_buf t ! unat j"
  proof (intro allI impI)
    fix j :: size_t assume j: "j < (m_cap t)"
    then have uj: "unat j < unat (m_cap t)" by (simp add: word_less_nat_alt)
    then have "unat j < length (m_buf t0)" using len0 uo by simp
    with nodes j have "m_buf tl ! unat j = m_buf t0 ! unat j" by auto
    moreover have "m_buf t0 ! unat j = m_buf t ! unat j"
      using uj l by (simp add: t0_def nth_append)
    moreover have "unat (cap - 1) \<noteq> unat j" using ul uj uo by simp
    ultimately show "m_buf t1 ! unat j = m_buf t ! unat j"
      by (simp add: t1_def)
  qed
  have t0old: "m_buf t0 ! unat (m_cap t) = zero_node"
    using l uo by (simp add: t0_def nth_append)
  have tlold: "m_buf tl ! unat (m_cap t) =
      (cleared zero_node)\<lparr>m_prev_sibling := (m_cap t) - 1, m_next_sibling := (m_cap t) + 1\<rparr>"
    using nodes [rule_format, of "m_cap t"] c len0 uo t0old by simp
  have s1: "unat ((m_cap t) + 1) = Suc (unat (m_cap t))"
    using c unat_succ_less [of "m_cap t" cap] by simp
  have at: "m_buf t1 ! unat (m_cap t) =
      (cleared zero_node)\<lparr>m_prev_sibling := (m_cap t) - 1,
         m_next_sibling := (if (m_cap t) + 1 = cap then NONE else (m_cap t) + 1)\<rparr>"
  proof (cases "(m_cap t) + 1 = cap")
    case True
    then have "unat (cap - 1) = unat (m_cap t)" using s1 ul by auto
    with tlold lst True show ?thesis by (simp add: t1_def)
  next
    case False
    then have "unat (cap - 1) \<noteq> unat (m_cap t)"
      using s1 ul uo by (metis Suc_pred' add.commute less_nat_zero_code not_gr_zero
          plus_1_eq_Suc word_unat_eq_iff)
    with tlold False show ?thesis by (simp add: t1_def)
  qed
  from g r f below at show ?thesis
    by simp
qed


lemma no_overflow_succ:
  assumes "(c :: size_t) < 2 * c"
  shows "c + 1 \<noteq> NONE" "unat (c + 1) = Suc (unat c)" "c < c + 1"
proof -
  have d: "unat (2 * c) = 2 * unat c"
    using assms by (rule double_no_overflow)
  have "unat (2 * c) < 2 ^ 64"
    using unsigned_less [of "2 * c"] by simp
  with d have b: "unat c < 2 ^ 63" by simp
  show s: "unat (c + 1) = Suc (unat c)"
    using assms by (rule unat_succ_less)
  have "unat NONE = 2 ^ 64 - 1"
    by (simp add: NONE_def unsigned_minus_1_eq_mask mask_eq_exp_minus_1)
  with s b show "c + 1 \<noteq> NONE" by auto
  from s show "c < c + 1" by (simp add: word_less_nat_alt)
qed

lemma priv_claim_full_grows:
  assumes h: "m_free_head t = NONE" "m_free_tail t = NONE"
    and c: "0 < m_cap t" "m_cap t < 2 * m_cap t"
    and s: "m_size t = m_cap t"
    and l: "length (m_buf t) = unat (m_cap t)"
  shows "\<exists>t'. priv_claim t = Inr (m_cap t, t') \<and> m_cap t' = 2 * m_cap t \<and>
           m_size t' = m_size t + 1 \<and> length (m_buf t') = 2 * unat (m_cap t) \<and>
           m_free_head t' = (if m_cap t = 1 then NONE else m_cap t + 1) \<and>
           (\<forall>j :: size_t. j < m_cap t \<longrightarrow> m_buf t' ! unat j = m_buf t ! unat j) \<and>
           m_buf t' ! unat (m_cap t) =
             (cleared zero_node)\<lparr>m_prev_sibling := m_cap t - 1,
                m_next_sibling := (if m_cap t = 1 then NONE else m_cap t + 1)\<rparr>"
proof -
  from reserve_grow_full [OF h c l] obtain t1 where
    g: "reserve_grow t (2 * m_cap t) = Inr t1" and
    f: "m_cap t1 = 2 * m_cap t" "m_size t1 = m_size t" "m_free_head t1 = m_cap t"
       "length (m_buf t1) = unat (2 * m_cap t)" and
    below: "\<forall>j :: size_t. j < m_cap t \<longrightarrow> m_buf t1 ! unat j = m_buf t ! unat j" and
    at: "m_buf t1 ! unat (m_cap t) =
             (cleared zero_node)\<lparr>m_prev_sibling := m_cap t - 1,
                m_next_sibling := (if m_cap t + 1 = 2 * m_cap t then NONE else m_cap t + 1)\<rparr>"
    by blast
  have one: "(m_cap t + 1 = 2 * m_cap t) = (m_cap t = 1)"
    by auto
  have nz: "2 * m_cap t \<noteq> 0" "m_cap t \<noteq> 0"
    using c by auto
  have d: "unat (2 * m_cap t) = 2 * unat (m_cap t)"
    using c(2) by (rule double_no_overflow)
  have uc: "unat (m_cap t) < unat (2 * m_cap t)"
    using c(2) by (simp add: word_less_nat_alt)
  have r: "reserve t (2 * m_cap t) 0 = Inr t1"
    using c g f s nz by (subst reserve.simps) simp
  have hd: "m_free_head t1 \<noteq> NONE"
    using f(3) c(2) by (auto dest: less_cap_not_NONE)
  have ne: "m_buf t1 \<noteq> []"
    using f(4) uc by auto
  have e: "priv_claim t = priv_claim t1"
    using priv_claim_after_reserve [OF h(1) _ hd ne] r nz by simp
  have p: "priv_claim t1 = Inr (m_free_head t1, popped t1)"
  proof (rule priv_claim_pop_returns [OF hd ne])
    show "m_size t1 < m_cap t1" using f s c by simp
    show "m_free_head t1 < m_cap t1" using f c by simp
    show "unat (m_free_head t1) < length (m_buf t1)" using f uc by simp
    show "m_next_sibling (m_buf t1 ! unat (m_free_head t1)) = NONE \<longrightarrow> m_size t1 + 1 = m_cap t1"
      using f s at no_overflow_succ(1) [OF c(2)] by (auto simp: one)
  qed
  have ix: "unat (m_cap t) < length (m_buf t1)"
    using f uc by simp
  have pb: "\<forall>j :: size_t. j < m_cap t \<longrightarrow> m_buf (popped t1) ! unat j = m_buf t ! unat j"
  proof (intro allI impI)
    fix j :: size_t assume j: "j < m_cap t"
    then have "unat (m_cap t) \<noteq> unat j" by (simp add: word_less_nat_alt)
    with below j f show "m_buf (popped t1) ! unat j = m_buf t ! unat j"
      by (simp add: popped_def Let_def)
  qed
  have pa: "m_buf (popped t1) ! unat (m_cap t) =
             (cleared zero_node)\<lparr>m_prev_sibling := m_cap t - 1,
                m_next_sibling := (if m_cap t = 1 then NONE else m_cap t + 1)\<rparr>"
    using at ix f by (simp add: popped_def Let_def one cleared_def)
  have ph: "m_free_head (popped t1) = (if m_cap t = 1 then NONE else m_cap t + 1)"
    using at f by (simp add: popped_def Let_def one)
  from e p f d pb pa ph popped_fields [of t1] show ?thesis
    by simp
qed

lemma fresh_claim:
  "\<exists>t'. priv_claim (Tree_new a) = Inr (1, t') \<and> m_cap t' = 16 \<and> m_size t' = 2 \<and>
        m_free_head t' = 2 \<and> m_parent (m_buf t' ! 0) = NONE \<and> m_type (m_buf t' ! 1) = NOTYPE"
  by (simp add: eval_defs)



text \<open>A full tree of capacity 4: the root and three claimed records.\<close>

definition full_tree :: "Tree res" where
  "full_tree =
     rbind (reserve (Tree_new alloc0) 4 0) (\<lambda>t0.
     rbind (priv_claim t0) (\<lambda>(a, t1).
     rbind (priv_claim t1) (\<lambda>(b, t2).
     rbind (priv_claim t2) (\<lambda>(c, t3). Inr t3))))"


text \<open>
  C8, as far as the code does it.  \<^verbatim>\<open>_claim\<close> pops the head of the free list, clears the
  popped record and returns its handle.  With an empty free list it first grows the
  buffer to twice the capacity, and to 16 only when the capacity is 0: 16 is not a
  minimum.  A claim on a new tree returns handle 1, because the growth runs \<^verbatim>\<open>reserve\<close>,
  which claims the root, handle 0, through \<^verbatim>\<open>_claim_root\<close>.

  The six conjuncts, for every tree \<open>t\<close>:
  \<^enum> with a nonempty free list, a claim that returns has returned the head \<open>i\<close>; the new head
    is the old \<open>m_next_sibling\<close> of \<open>i\<close>, the size is one more, and record \<open>i\<close> is cleared
    (\<^verbatim>\<open>NOTYPE\<close>, empty key and value, no parent and no children), nothing else changes;
  \<^enum> with a nonempty free list, the claim does return when the assertions of the source
    hold;
  \<^enum> with an empty free list, a claim that returns has grown the buffer from \<open>m_cap t\<close> to
    twice that (16 from 0), without overflow, and its result is that of claiming on the
    grown tree, whose free list is not empty;
  \<^enum> on a full tree (no free record, as many nodes as the capacity \<open>c > 0\<close>, and \<open>2 * c\<close> does
    not overflow) the claim returns: the capacity is \<open>2 * c\<close>, the handle is \<open>c\<close>, the first
    new record, which is cleared, the records below \<open>c\<close> are as they were, and the free list
    goes on at \<open>c + 1\<close> (it is empty when \<open>c = 1\<close>);
  \<^enum> on a new tree, with any allocator, the claim returns handle 1, with capacity 16 and
    two nodes, the root 0 and the record 1;
  \<^enum> on a new tree, whatever capacity \<open>cap > 0\<close> the first \<^verbatim>\<open>reserve\<close> asks for, the claim that
    \<^verbatim>\<open>reserve\<close> makes through \<^verbatim>\<open>_claim_root\<close> (on the state \<open>reserve_grow\<close> leaves, whose size is
    0) returns handle 0, as \<^verbatim>\<open>_claim_root\<close> asserts.
\<close>

theorem claim_pops_or_grows:
  "(m_free_head t \<noteq> NONE \<and> m_buf t \<noteq> [] \<and> priv_claim t = Inr (i, t') \<longrightarrow>
      i = m_free_head t \<and> i < m_cap t \<and> unat i < length (m_buf t) \<and>
      m_free_head t' = m_next_sibling (m_buf t ! unat i) \<and>
      m_size t' = m_size t + 1 \<and> m_cap t' = m_cap t \<and>
      m_buf t' = (m_buf t)[unat i := cleared (m_buf t ! unat i)] \<and>
      m_type (m_buf t' ! unat i) = NOTYPE \<and>
      m_key (m_buf t' ! unat i) = clear_scalar \<and> m_val (m_buf t' ! unat i) = clear_scalar \<and>
      m_parent (m_buf t' ! unat i) = NONE \<and> m_first_child (m_buf t' ! unat i) = NONE \<and>
      m_last_child (m_buf t' ! unat i) = NONE) \<and>
   (m_free_head t \<noteq> NONE \<and> m_buf t \<noteq> [] \<and> m_size t < m_cap t \<and> m_free_head t < m_cap t \<and>
    unat (m_free_head t) < length (m_buf t) \<and>
    (m_next_sibling (m_buf t ! unat (m_free_head t)) = NONE \<longrightarrow> m_size t + 1 = m_cap t) \<longrightarrow>
      priv_claim t = Inr (m_free_head t, popped t)) \<and>
   (m_free_head t = NONE \<and> priv_claim t = Inr (i, t') \<longrightarrow>
      m_cap t < m_cap t' \<and>
      m_cap t' = (if m_cap t = 0 then 16 else 2 * m_cap t) \<and>
      unat (m_cap t') = (if m_cap t = 0 then 16 else 2 * unat (m_cap t)) \<and>
      (\<exists>t1. reserve t (m_cap t') 0 = Inr t1 \<and> m_free_head t1 \<noteq> NONE \<and> m_buf t1 \<noteq> [] \<and>
            priv_claim t1 = Inr (i, t') \<and> i = m_free_head t1)) \<and>
   (m_free_head t = NONE \<and> m_free_tail t = NONE \<and> 0 < m_cap t \<and> m_cap t < 2 * m_cap t \<and>
    m_size t = m_cap t \<and> length (m_buf t) = unat (m_cap t) \<longrightarrow>
      (\<exists>u. priv_claim t = Inr (m_cap t, u) \<and> m_cap u = 2 * m_cap t \<and>
           m_size u = m_size t + 1 \<and> length (m_buf u) = 2 * unat (m_cap t) \<and>
           m_free_head u = (if m_cap t = 1 then NONE else m_cap t + 1) \<and>
           (\<forall>j :: size_t. j < m_cap t \<longrightarrow> m_buf u ! unat j = m_buf t ! unat j) \<and>
           m_buf u ! unat (m_cap t) =
             (cleared zero_node)\<lparr>m_prev_sibling := m_cap t - 1,
                m_next_sibling := (if m_cap t = 1 then NONE else m_cap t + 1)\<rparr>)) \<and>
   (\<exists>u. priv_claim (Tree_new a) = Inr (1, u) \<and> m_cap u = 16 \<and> m_size u = 2 \<and>
        m_free_head u = 2 \<and> m_parent (m_buf u ! 0) = NONE \<and> m_type (m_buf u ! 1) = NOTYPE) \<and>
   (0 < cap \<longrightarrow>
      (\<exists>t1 t2. reserve_grow (Tree_new a) cap = Inr t1 \<and> m_size t1 = 0 \<and>
               priv_claim t1 = Inr (0, t2)))"
proof (intro conjI impI)
  assume a: "m_free_head t \<noteq> NONE \<and> m_buf t \<noteq> [] \<and> priv_claim t = Inr (i, t')"
  then have e: "i = m_free_head t" "t' = popped t" "i < m_cap t" "unat i < length (m_buf t)"
    using priv_claim_pop_eq [of t i t'] by blast+
  show "i = m_free_head t" "i < m_cap t" "unat i < length (m_buf t)"
    by (fact e)+
  show "m_free_head t' = m_next_sibling (m_buf t ! unat i)"
    "m_size t' = m_size t + 1" "m_cap t' = m_cap t"
    "m_buf t' = (m_buf t)[unat i := cleared (m_buf t ! unat i)]"
    using e by (simp_all add: popped_def Let_def)
  then show "m_type (m_buf t' ! unat i) = NOTYPE"
    "m_key (m_buf t' ! unat i) = clear_scalar" "m_val (m_buf t' ! unat i) = clear_scalar"
    "m_parent (m_buf t' ! unat i) = NONE" "m_first_child (m_buf t' ! unat i) = NONE"
    "m_last_child (m_buf t' ! unat i) = NONE"
    using e(4) by (simp_all add: cleared_def)
next
  assume "m_free_head t \<noteq> NONE \<and> m_buf t \<noteq> [] \<and> m_size t < m_cap t \<and>
    m_free_head t < m_cap t \<and> unat (m_free_head t) < length (m_buf t) \<and>
    (m_next_sibling (m_buf t ! unat (m_free_head t)) = NONE \<longrightarrow> m_size t + 1 = m_cap t)"
  then show "priv_claim t = Inr (m_free_head t, popped t)"
    using priv_claim_pop_returns [of t] by blast
next
  assume a: "m_free_head t = NONE \<and> priv_claim t = Inr (i, t')"
  from priv_claim_grows [of t i t'] a
  show "m_cap t < m_cap t'"
    "m_cap t' = (if m_cap t = 0 then 16 else 2 * m_cap t)"
    "unat (m_cap t') = (if m_cap t = 0 then 16 else 2 * unat (m_cap t))"
    "\<exists>t1. reserve t (m_cap t') 0 = Inr t1 \<and> m_free_head t1 \<noteq> NONE \<and> m_buf t1 \<noteq> [] \<and>
          priv_claim t1 = Inr (i, t') \<and> i = m_free_head t1"
    by blast+
next
  assume "m_free_head t = NONE \<and> m_free_tail t = NONE \<and> 0 < m_cap t \<and> m_cap t < 2 * m_cap t \<and>
    m_size t = m_cap t \<and> length (m_buf t) = unat (m_cap t)"
  then show "\<exists>u. priv_claim t = Inr (m_cap t, u) \<and> m_cap u = 2 * m_cap t \<and>
           m_size u = m_size t + 1 \<and> length (m_buf u) = 2 * unat (m_cap t) \<and>
           m_free_head u = (if m_cap t = 1 then NONE else m_cap t + 1) \<and>
           (\<forall>j :: size_t. j < m_cap t \<longrightarrow> m_buf u ! unat j = m_buf t ! unat j) \<and>
           m_buf u ! unat (m_cap t) =
             (cleared zero_node)\<lparr>m_prev_sibling := m_cap t - 1,
                m_next_sibling := (if m_cap t = 1 then NONE else m_cap t + 1)\<rparr>"
    using priv_claim_full_grows [of t] by blast
next
  show "\<exists>u. priv_claim (Tree_new a) = Inr (1, u) \<and> m_cap u = 16 \<and> m_size u = 2 \<and>
        m_free_head u = 2 \<and> m_parent (m_buf u ! 0) = NONE \<and> m_type (m_buf u ! 1) = NOTYPE"
    by (rule fresh_claim)
next
  assume "0 < cap"
  then show "\<exists>t1 t2. reserve_grow (Tree_new a) cap = Inr t1 \<and> m_size t1 = 0 \<and>
               priv_claim t1 = Inr (0, t2)"
    by (rule first_claim_returns_root)
qed


text \<open>C8 as the claim states it: a full tree of capacity 1 grows to capacity 2, not to
  16, and the claim on a new tree returns handle 1, not 0.\<close>

theorem claim_minimum_and_first_counterexample:
  "(\<exists>t u. reserve (Tree_new alloc0) 1 0 = Inr t \<and> m_cap t = 1 \<and> m_size t = 1 \<and>
          m_free_head t = NONE \<and> priv_claim t = Inr (1, u) \<and> m_cap u = 2) \<and>
   (\<exists>u. priv_claim (Tree_new alloc0) = Inr (1, u) \<and> m_cap u = 16 \<and> m_size u = 2)"
  by (simp add: eval_defs alloc0_def)


text \<open>Witness for C8: the tree after \<^verbatim>\<open>reserve(4)\<close> (free list 1, 2, 3) for the pop, the full
  tree of capacity 4 for the growth to 8, and the new tree for the claim of the root.\<close>

theorem claim_pops_or_grows_witness:
  "(\<exists>t. reserve (Tree_new alloc0) 4 0 = Inr t \<and> m_free_head t = 1 \<and> m_buf t \<noteq> [] \<and>
        (\<exists>t'. priv_claim t = Inr (1, t') \<and> m_free_head t' = 2 \<and> m_size t' = 2 \<and>
              m_type (m_buf t' ! 1) = NOTYPE \<and> m_parent (m_buf t' ! 1) = NONE)) \<and>
   (\<exists>t. full_tree = Inr t \<and> m_free_head t = NONE \<and> m_free_tail t = NONE \<and> m_cap t = 4 \<and>
        m_size t = 4 \<and> length (m_buf t) = 4 \<and>
        (\<exists>u. priv_claim t = Inr (4, u) \<and> m_cap u = 8 \<and> m_size u = 5 \<and> m_free_head u = 5 \<and>
             m_type (m_buf u ! 4) = NOTYPE)) \<and>
   (\<exists>t1 t2. reserve_grow (Tree_new alloc0) 16 = Inr t1 \<and> m_size t1 = 0 \<and>
            priv_claim t1 = Inr (0, t2))"
proof -
  define t where "t = projr (reserve (Tree_new alloc0) 4 0)"
  define t' where "t' = snd (projr (priv_claim t))"
  define f where "f = projr full_tree"
  have r: "reserve (Tree_new alloc0) 4 0 = Inr t"
    by (simp add: t_def eval_defs alloc0_def)
  have h1: "m_free_head t \<noteq> NONE \<and> m_buf t \<noteq> [] \<and> priv_claim t = Inr (1, t')"
    by (simp add: t'_def t_def eval_defs alloc0_def)
  have hd: "m_free_head t = 1"
    by (simp add: t_def eval_defs alloc0_def)
  from claim_pops_or_grows [of t 1 t' alloc0 16] h1 hd
  have c1: "m_free_head t' = m_next_sibling (m_buf t ! unat (1 :: size_t)) \<and> m_size t' = m_size t + 1 \<and>
            m_type (m_buf t' ! unat (1 :: size_t)) = NOTYPE \<and> m_parent (m_buf t' ! unat (1 :: size_t)) = NONE"
    by blast
  have v: "m_next_sibling (m_buf t ! unat (1 :: size_t)) = 2" "m_size t = 1"
    by (simp_all add: t_def eval_defs alloc0_def)
  have fe: "full_tree = Inr f"
    by (simp add: f_def full_tree_def eval_defs alloc0_def)
  have h5: "m_free_head f = NONE \<and> m_free_tail f = NONE \<and> 0 < m_cap f \<and> m_cap f < 2 * m_cap f \<and>
    m_size f = m_cap f \<and> length (m_buf f) = unat (m_cap f)"
    by (simp add: f_def full_tree_def eval_defs alloc0_def)
  have fv: "m_cap f = 4" "m_size f = 4" "length (m_buf f) = 4"
    by (simp_all add: f_def full_tree_def eval_defs alloc0_def)
  have h6: "(0 :: size_t) < 16"
    by simp
  from claim_pops_or_grows [of f 1 t' alloc0 16] h5 h6
  obtain u where c5: "priv_claim f = Inr (m_cap f, u)" "m_cap u = 2 * m_cap f"
      "m_size u = m_size f + 1" "m_free_head u = (if m_cap f = 1 then NONE else m_cap f + 1)"
      "m_buf u ! unat (m_cap f) =
             (cleared zero_node)\<lparr>m_prev_sibling := m_cap f - 1,
                m_next_sibling := (if m_cap f = 1 then NONE else m_cap f + 1)\<rparr>"
    and c6: "\<exists>t1 t2. reserve_grow (Tree_new alloc0) 16 = Inr t1 \<and> m_size t1 = 0 \<and>
               priv_claim t1 = Inr (0, t2)"
    by blast
  have c5': "priv_claim f = Inr (4, u)" "m_cap u = 8" "m_size u = 5" "m_free_head u = 5"
    "m_type (m_buf u ! 4) = NOTYPE"
    using c5 fv by (simp_all add: cleared_def)
  from r h1 hd c1 v fe h5 fv c5' c6 show ?thesis
    by auto
qed

section \<open>Type transitions\<close>

text \<open>Modelled from the spec: the kind predicates and \<^verbatim>\<open>_set_flags\<close> are declared in
  \<^verbatim>\<open>tree.hpp\<close>, which is not among the sources.  They test the bits of section 3.2: a
  \<^verbatim>\<open>VAL\<close> is a value without a key, a \<^verbatim>\<open>KEYVAL\<close> a value with a key; \<^verbatim>\<open>parent_is_map\<close>
  asserts that the node has a parent.\<close>

definition is_val_bits :: "type_bits \<Rightarrow> bool" where
  "is_val_bits ty = (ty AND KEYVAL = VAL)"

definition is_keyval_bits :: "type_bits \<Rightarrow> bool" where
  "is_keyval_bits ty = (ty AND KEYVAL = KEYVAL)"

definition is_map_bits :: "type_bits \<Rightarrow> bool" where
  "is_map_bits ty = (ty AND MAP \<noteq> 0)"

definition is_seq_bits :: "type_bits \<Rightarrow> bool" where
  "is_seq_bits ty = (ty AND SEQ \<noteq> 0)"

definition has_key_bits :: "type_bits \<Rightarrow> bool" where
  "has_key_bits ty = (ty AND KEY \<noteq> 0)"

definition has_val_bits :: "type_bits \<Rightarrow> bool" where
  "has_val_bits ty = (ty AND VAL \<noteq> 0)"

definition is_map :: "Tree \<Rightarrow> size_t \<Rightarrow> bool res" where
  "is_map t i = rbind (priv_p t i) (\<lambda>n. Inr (is_map_bits (m_type n)))"

definition is_seq :: "Tree \<Rightarrow> size_t \<Rightarrow> bool res" where
  "is_seq t i = rbind (priv_p t i) (\<lambda>n. Inr (is_seq_bits (m_type n)))"

definition has_children :: "Tree \<Rightarrow> size_t \<Rightarrow> bool res" where
  "has_children t i = rbind (first_child t i) (\<lambda>c. Inr (c \<noteq> NONE))"

definition parent_is_map :: "Tree \<Rightarrow> size_t \<Rightarrow> bool res" where
  "parent_is_map t i =
     rbind (parent t i) (\<lambda>p. if p = NONE then Inl AssertFailed else is_map t p)"

definition priv_set_flags :: "Tree \<Rightarrow> size_t \<Rightarrow> type_bits \<Rightarrow> Tree res" where
  "priv_set_flags t i f = p_upd t i (\<lambda>n. n\<lparr>m_type := f\<rparr>)"

text \<open>The two assertions on the parent: \<^verbatim>\<open>parent(node) == NONE || ! parent_is_map(node)\<close>
  and \<^verbatim>\<open>parent(node) == NONE || parent_is_map(node)\<close>.\<close>

definition parent_none_or_map :: "Tree \<Rightarrow> size_t \<Rightarrow> bool \<Rightarrow> bool res" where
  "parent_none_or_map t i want =
     rbind (parent t i) (\<lambda>p.
       if p = NONE then Inr True
       else rbind (parent_is_map t i) (\<lambda>b. Inr (b = want)))"

definition to_val :: "Tree \<Rightarrow> size_t \<Rightarrow> csubstr \<Rightarrow> type_bits \<Rightarrow> Tree res" where
  "to_val t node v more_flags =
     rbind (has_children t node) (\<lambda>hc. if hc then Inl AssertFailed else
     rbind (parent_none_or_map t node False) (\<lambda>ok. if \<not> ok then Inl AssertFailed else
     rbind (priv_set_flags t node (VAL OR more_flags)) (\<lambda>t1.
     rbind (p_upd t1 node (\<lambda>n. n\<lparr>m_key := clear_scalar\<rparr>)) (\<lambda>t2.
     p_upd t2 node (\<lambda>n. n\<lparr>m_val := scalar_of v\<rparr>)))))"

definition to_keyval :: "Tree \<Rightarrow> size_t \<Rightarrow> csubstr \<Rightarrow> csubstr \<Rightarrow> type_bits \<Rightarrow> Tree res" where
  "to_keyval t node k v more_flags =
     rbind (has_children t node) (\<lambda>hc. if hc then Inl AssertFailed else
     rbind (parent_none_or_map t node True) (\<lambda>ok. if \<not> ok then Inl AssertFailed else
     rbind (priv_set_flags t node (KEYVAL OR more_flags)) (\<lambda>t1.
     rbind (p_upd t1 node (\<lambda>n. n\<lparr>m_key := scalar_of k\<rparr>)) (\<lambda>t2.
     p_upd t2 node (\<lambda>n. n\<lparr>m_val := scalar_of v\<rparr>)))))"

definition to_map :: "Tree \<Rightarrow> size_t \<Rightarrow> type_bits \<Rightarrow> Tree res" where
  "to_map t node more_flags =
     rbind (has_children t node) (\<lambda>hc. if hc then Inl AssertFailed else
     rbind (parent_none_or_map t node False) (\<lambda>ok. if \<not> ok then Inl AssertFailed else
     rbind (priv_set_flags t node (MAP OR more_flags)) (\<lambda>t1.
     rbind (p_upd t1 node (\<lambda>n. n\<lparr>m_key := clear_scalar\<rparr>)) (\<lambda>t2.
     p_upd t2 node (\<lambda>n. n\<lparr>m_val := clear_scalar\<rparr>)))))"

definition to_map_key :: "Tree \<Rightarrow> size_t \<Rightarrow> csubstr \<Rightarrow> type_bits \<Rightarrow> Tree res" where
  "to_map_key t node k more_flags =
     rbind (has_children t node) (\<lambda>hc. if hc then Inl AssertFailed else
     if chars k = [] then Inl AssertFailed else
     rbind (parent_none_or_map t node True) (\<lambda>ok. if \<not> ok then Inl AssertFailed else
     rbind (priv_set_flags t node (KEY OR MAP OR more_flags)) (\<lambda>t1.
     rbind (p_upd t1 node (\<lambda>n. n\<lparr>m_key := scalar_of k\<rparr>)) (\<lambda>t2.
     p_upd t2 node (\<lambda>n. n\<lparr>m_val := clear_scalar\<rparr>)))))"

definition to_seq :: "Tree \<Rightarrow> size_t \<Rightarrow> type_bits \<Rightarrow> Tree res" where
  "to_seq t node more_flags =
     rbind (has_children t node) (\<lambda>hc. if hc then Inl AssertFailed else
     rbind (priv_set_flags t node (SEQ OR more_flags)) (\<lambda>t1.
     rbind (p_upd t1 node (\<lambda>n. n\<lparr>m_key := clear_scalar\<rparr>)) (\<lambda>t2.
     p_upd t2 node (\<lambda>n. n\<lparr>m_val := clear_scalar\<rparr>))))"

definition to_seq_key :: "Tree \<Rightarrow> size_t \<Rightarrow> csubstr \<Rightarrow> type_bits \<Rightarrow> Tree res" where
  "to_seq_key t node k more_flags =
     rbind (has_children t node) (\<lambda>hc. if hc then Inl AssertFailed else
     rbind (parent_none_or_map t node True) (\<lambda>ok. if \<not> ok then Inl AssertFailed else
     rbind (priv_set_flags t node (KEY OR SEQ OR more_flags)) (\<lambda>t1.
     rbind (p_upd t1 node (\<lambda>n. n\<lparr>m_key := scalar_of k\<rparr>)) (\<lambda>t2.
     p_upd t2 node (\<lambda>n. n\<lparr>m_val := clear_scalar\<rparr>)))))"

definition to_doc :: "Tree \<Rightarrow> size_t \<Rightarrow> type_bits \<Rightarrow> Tree res" where
  "to_doc t node more_flags =
     rbind (has_children t node) (\<lambda>hc. if hc then Inl AssertFailed else
     rbind (priv_set_flags t node (DOC OR more_flags)) (\<lambda>t1.
     rbind (p_upd t1 node (\<lambda>n. n\<lparr>m_key := clear_scalar\<rparr>)) (\<lambda>t2.
     p_upd t2 node (\<lambda>n. n\<lparr>m_val := clear_scalar\<rparr>))))"

definition to_stream :: "Tree \<Rightarrow> size_t \<Rightarrow> type_bits \<Rightarrow> Tree res" where
  "to_stream t node more_flags =
     rbind (has_children t node) (\<lambda>hc. if hc then Inl AssertFailed else
     rbind (priv_set_flags t node (STREAM OR more_flags)) (\<lambda>t1.
     rbind (p_upd t1 node (\<lambda>n. n\<lparr>m_key := clear_scalar\<rparr>)) (\<lambda>t2.
     p_upd t2 node (\<lambda>n. n\<lparr>m_val := clear_scalar\<rparr>))))"

text \<open>\<open>valid_handle t n\<close>: \<open>n\<close> is a handle of the tree and its record is in the buffer.\<close>

definition valid_handle :: "Tree \<Rightarrow> size_t \<Rightarrow> bool" where
  "valid_handle t n = (n \<noteq> NONE \<and> n < m_cap t \<and> unat n < length (m_buf t))"

text \<open>The state in which record \<open>n\<close> has the given type, key and value, and nothing else
  differs from \<open>t\<close>.\<close>

definition retyped :: "Tree \<Rightarrow> size_t \<Rightarrow> type_bits \<Rightarrow> NodeScalar \<Rightarrow> NodeScalar \<Rightarrow> Tree" where
  "retyped t n ty k v =
     t\<lparr>m_buf := (m_buf t)[unat n := (m_buf t ! unat n)\<lparr>m_type := ty, m_key := k, m_val := v\<rparr>]\<rparr>"

text \<open>\<open>unchanged_but t n t'\<close>: the fields of the tree, every record other than \<open>n\<close>, and the
  five hierarchy fields of record \<open>n\<close> are the same in \<open>t\<close> and \<open>t'\<close>.\<close>

definition unchanged_but :: "Tree \<Rightarrow> size_t \<Rightarrow> Tree \<Rightarrow> bool" where
  "unchanged_but t n t' =
     (m_cap t' = m_cap t \<and> m_size t' = m_size t \<and> m_free_head t' = m_free_head t \<and>
      m_free_tail t' = m_free_tail t \<and> m_arena t' = m_arena t \<and>
      m_arena_pos t' = m_arena_pos t \<and> m_alloc t' = m_alloc t \<and>
      length (m_buf t') = length (m_buf t) \<and>
      (\<forall>j < length (m_buf t). j \<noteq> unat n \<longrightarrow> m_buf t' ! j = m_buf t ! j) \<and>
      m_parent (m_buf t' ! unat n) = m_parent (m_buf t ! unat n) \<and>
      m_first_child (m_buf t' ! unat n) = m_first_child (m_buf t ! unat n) \<and>
      m_last_child (m_buf t' ! unat n) = m_last_child (m_buf t ! unat n) \<and>
      m_prev_sibling (m_buf t' ! unat n) = m_prev_sibling (m_buf t ! unat n) \<and>
      m_next_sibling (m_buf t' ! unat n) = m_next_sibling (m_buf t ! unat n))"

lemma three_updates:
  "rbind (priv_set_flags t n ty) (\<lambda>t1.
   rbind (p_upd t1 n (\<lambda>x. x\<lparr>m_key := k\<rparr>)) (\<lambda>t2.
   p_upd t2 n (\<lambda>x. x\<lparr>m_val := v\<rparr>))) =
     (if valid_handle t n then Inr (retyped t n ty k v)
      else if n \<noteq> NONE \<and> n < m_cap t then Inl OutOfBounds else Inl AssertFailed)"
  by (simp add: priv_set_flags_def p_upd_def raw_upd_def retyped_def valid_handle_def)

lemma has_children_eq:
  "has_children t n =
     (if valid_handle t n then Inr (m_first_child (m_buf t ! unat n) \<noteq> NONE)
      else if n \<noteq> NONE \<and> n < m_cap t then Inl OutOfBounds else Inl AssertFailed)"
  by (simp add: has_children_def first_child_def priv_p_def raw_def valid_handle_def)

lemma parent_none_or_map_Inr:
  "parent_none_or_map t n w = Inr b \<Longrightarrow> valid_handle t n"
  by (auto simp: parent_none_or_map_def parent_def priv_p_def raw_def valid_handle_def
      rbind_eq_Inr split: if_splits)

lemma to_val_Inr_iff:
  "(to_val t n v f = Inr t') =
     (valid_handle t n \<and> m_first_child (m_buf t ! unat n) = NONE \<and>
      parent_none_or_map t n False = Inr True \<and>
      t' = retyped t n (VAL OR f) clear_scalar (scalar_of v))"
  by (cases "parent_none_or_map t n False")
     (auto simp: to_val_def has_children_eq three_updates dest: parent_none_or_map_Inr)

lemma to_keyval_Inr_iff:
  "(to_keyval t n k v f = Inr t') =
     (valid_handle t n \<and> m_first_child (m_buf t ! unat n) = NONE \<and>
      parent_none_or_map t n True = Inr True \<and>
      t' = retyped t n (KEYVAL OR f) (scalar_of k) (scalar_of v))"
  by (cases "parent_none_or_map t n True")
     (auto simp: to_keyval_def has_children_eq three_updates dest: parent_none_or_map_Inr)

lemma to_map_Inr_iff:
  "(to_map t n f = Inr t') =
     (valid_handle t n \<and> m_first_child (m_buf t ! unat n) = NONE \<and>
      parent_none_or_map t n False = Inr True \<and>
      t' = retyped t n (MAP OR f) clear_scalar clear_scalar)"
  by (cases "parent_none_or_map t n False")
     (auto simp: to_map_def has_children_eq three_updates dest: parent_none_or_map_Inr)

lemma to_map_key_Inr_iff:
  "(to_map_key t n k f = Inr t') =
     (valid_handle t n \<and> m_first_child (m_buf t ! unat n) = NONE \<and> chars k \<noteq> [] \<and>
      parent_none_or_map t n True = Inr True \<and>
      t' = retyped t n (KEY OR MAP OR f) (scalar_of k) clear_scalar)"
  by (cases "parent_none_or_map t n True")
     (auto simp: to_map_key_def has_children_eq three_updates dest: parent_none_or_map_Inr)

lemma to_seq_Inr_iff:
  "(to_seq t n f = Inr t') =
     (valid_handle t n \<and> m_first_child (m_buf t ! unat n) = NONE \<and>
      t' = retyped t n (SEQ OR f) clear_scalar clear_scalar)"
  by (auto simp: to_seq_def has_children_eq three_updates)

lemma to_seq_key_Inr_iff:
  "(to_seq_key t n k f = Inr t') =
     (valid_handle t n \<and> m_first_child (m_buf t ! unat n) = NONE \<and>
      parent_none_or_map t n True = Inr True \<and>
      t' = retyped t n (KEY OR SEQ OR f) (scalar_of k) clear_scalar)"
  by (cases "parent_none_or_map t n True")
     (auto simp: to_seq_key_def has_children_eq three_updates dest: parent_none_or_map_Inr)

lemma to_doc_Inr_iff:
  "(to_doc t n f = Inr t') =
     (valid_handle t n \<and> m_first_child (m_buf t ! unat n) = NONE \<and>
      t' = retyped t n (DOC OR f) clear_scalar clear_scalar)"
  by (auto simp: to_doc_def has_children_eq three_updates)

lemma to_stream_Inr_iff:
  "(to_stream t n f = Inr t') =
     (valid_handle t n \<and> m_first_child (m_buf t ! unat n) = NONE \<and>
      t' = retyped t n (STREAM OR f) clear_scalar clear_scalar)"
  by (auto simp: to_stream_def has_children_eq three_updates)

lemma retyped_unchanged:
  "valid_handle t n \<Longrightarrow> unchanged_but t n (retyped t n ty k v)"
  by (simp add: valid_handle_def unchanged_but_def retyped_def)

lemma retyped_node:
  "valid_handle t n \<Longrightarrow>
     m_type (m_buf (retyped t n ty k v) ! unat n) = ty \<and>
     m_key (m_buf (retyped t n ty k v) ! unat n) = k \<and>
     m_val (m_buf (retyped t n ty k v) ! unat n) = v"
  by (simp add: valid_handle_def retyped_def)

section \<open>Building trees\<close>

text \<open>A view of text outside the arena (the input buffer), and the step by which a
  parser adds a node: claim a handle and wire it below \<open>parent\<close> after \<open>after\<close>
  (section 2 of the specification).\<close>

definition ext :: "string \<Rightarrow> csubstr" where
  "ext s = \<lparr>str = 64, chars = s\<rparr>"

definition new_child :: "Tree \<Rightarrow> size_t \<Rightarrow> size_t \<Rightarrow> (size_t \<times> Tree) res" where
  "new_child t iparent after =
     rbind (priv_claim t) (\<lambda>(i, t1).
     rbind (priv_set_hierarchy t1 i iparent after) (\<lambda>t2. Inr (i, t2)))"

text \<open>The map \<open>{a: 1, b: 2}\<close> in a tree of capacity 4: root 0, children 1 and 2.\<close>

definition map_ab :: "Tree res" where
  "map_ab =
     rbind (reserve (Tree_new alloc0) 4 0) (\<lambda>t0.
     rbind (to_map t0 0 0) (\<lambda>t1.
     rbind (new_child t1 0 NONE) (\<lambda>(a, t2).
     rbind (to_keyval t2 a (ext ''a'') (ext ''1'') 0) (\<lambda>t3.
     rbind (new_child t3 0 a) (\<lambda>(b, t4).
     to_keyval t4 b (ext ''b'') (ext ''2'') 0)))))"

lemmas eval_defs2 = is_val_bits_def is_keyval_bits_def is_map_bits_def is_seq_bits_def
  has_key_bits_def has_val_bits_def is_map_def is_seq_def has_children_def parent_is_map_def
  priv_set_flags_def parent_none_or_map_def to_val_def to_keyval_def to_map_def to_map_key_def
  to_seq_def to_seq_key_def to_doc_def to_stream_def scalar_of_def ext_def new_child_def
  type_defs alloc0_def valid_handle_def

section \<open>C9: the type transitions change the type, the key and the value only\<close>

text \<open>
  C9: applied to a node \<open>n\<close> without children, \<^verbatim>\<open>to_val\<close>, \<^verbatim>\<open>to_keyval\<close>, \<^verbatim>\<open>to_map\<close>,
  \<^verbatim>\<open>to_seq\<close>, \<^verbatim>\<open>to_doc\<close> and \<^verbatim>\<open>to_stream\<close> leave the hierarchy fields of \<open>n\<close> and every
  other node unchanged; they set the type, the key and the value of \<open>n\<close>, and the
  transitions without a key leave the key empty.

  Each transition returns exactly when \<open>n\<close> is a valid handle without children and the
  assertion of the source on the parent holds (for \<^verbatim>\<open>to_map(node, key, ...)\<close> also: the key is
  not empty), and then the new state is \<open>retyped t n ty k v\<close>: the state \<open>t\<close> with the type,
  key and value of record \<open>n\<close> replaced.  The last conjunct is the frame: in \<open>retyped t n ty k v\<close>
  the fields of the tree, the other records and the five hierarchy fields of \<open>n\<close> are
  those of \<open>t\<close>.  The key is \<open>clear_scalar\<close> for \<^verbatim>\<open>to_val\<close>, \<^verbatim>\<open>to_map\<close>, \<^verbatim>\<open>to_seq\<close>, \<^verbatim>\<open>to_doc\<close>,
  \<^verbatim>\<open>to_stream\<close> without a key.
\<close>

theorem type_transitions_frame:
  "((to_val t n v f = Inr t') =
      (valid_handle t n \<and> m_first_child (m_buf t ! unat n) = NONE \<and>
       parent_none_or_map t n False = Inr True \<and>
       t' = retyped t n (VAL OR f) clear_scalar (scalar_of v))) \<and>
   ((to_keyval t n k v f = Inr t') =
      (valid_handle t n \<and> m_first_child (m_buf t ! unat n) = NONE \<and>
       parent_none_or_map t n True = Inr True \<and>
       t' = retyped t n (KEYVAL OR f) (scalar_of k) (scalar_of v))) \<and>
   ((to_map t n f = Inr t') =
      (valid_handle t n \<and> m_first_child (m_buf t ! unat n) = NONE \<and>
       parent_none_or_map t n False = Inr True \<and>
       t' = retyped t n (MAP OR f) clear_scalar clear_scalar)) \<and>
   ((to_map_key t n k f = Inr t') =
      (valid_handle t n \<and> m_first_child (m_buf t ! unat n) = NONE \<and> chars k \<noteq> [] \<and>
       parent_none_or_map t n True = Inr True \<and>
       t' = retyped t n (KEY OR MAP OR f) (scalar_of k) clear_scalar)) \<and>
   ((to_seq t n f = Inr t') =
      (valid_handle t n \<and> m_first_child (m_buf t ! unat n) = NONE \<and>
       t' = retyped t n (SEQ OR f) clear_scalar clear_scalar)) \<and>
   ((to_seq_key t n k f = Inr t') =
      (valid_handle t n \<and> m_first_child (m_buf t ! unat n) = NONE \<and>
       parent_none_or_map t n True = Inr True \<and>
       t' = retyped t n (KEY OR SEQ OR f) (scalar_of k) clear_scalar)) \<and>
   ((to_doc t n f = Inr t') =
      (valid_handle t n \<and> m_first_child (m_buf t ! unat n) = NONE \<and>
       t' = retyped t n (DOC OR f) clear_scalar clear_scalar)) \<and>
   ((to_stream t n f = Inr t') =
      (valid_handle t n \<and> m_first_child (m_buf t ! unat n) = NONE \<and>
       t' = retyped t n (STREAM OR f) clear_scalar clear_scalar)) \<and>
   (valid_handle t n \<longrightarrow>
      unchanged_but t n (retyped t n ty key_s val_s) \<and>
      m_type (m_buf (retyped t n ty key_s val_s) ! unat n) = ty \<and>
      m_key (m_buf (retyped t n ty key_s val_s) ! unat n) = key_s \<and>
      m_val (m_buf (retyped t n ty key_s val_s) ! unat n) = val_s)"
  using to_val_Inr_iff [of t n v f t'] to_keyval_Inr_iff [of t n k v f t']
    to_map_Inr_iff [of t n f t'] to_map_key_Inr_iff [of t n k f t']
    to_seq_Inr_iff [of t n f t'] to_seq_key_Inr_iff [of t n k f t']
    to_doc_Inr_iff [of t n f t'] to_stream_Inr_iff [of t n f t']
    retyped_unchanged [of t n ty key_s val_s] retyped_node [of t n ty key_s val_s]
  by blast

text \<open>Witness for C9: \<^verbatim>\<open>to_map\<close> on the root of the tree that \<^verbatim>\<open>reserve(4)\<close> leaves.\<close>

theorem type_transitions_frame_witness:
  "\<exists>t t'. reserve (Tree_new alloc0) 4 0 = Inr t \<and> valid_handle t 0 \<and>
      m_first_child (m_buf t ! unat (0 :: size_t)) = NONE \<and>
      parent_none_or_map t 0 False = Inr True \<and>
      to_map t 0 0 = Inr t' \<and> unchanged_but t 0 t' \<and>
      m_type (m_buf t' ! unat (0 :: size_t)) = MAP \<and>
      m_key (m_buf t' ! unat (0 :: size_t)) = clear_scalar"
proof -
  define t where "t = projr (reserve (Tree_new alloc0) 4 0)"
  define t' where "t' = retyped t 0 (MAP OR 0) clear_scalar clear_scalar"
  have r: "reserve (Tree_new alloc0) 4 0 = Inr t"
    by (simp add: t_def eval_defs eval_defs2)
  have h: "valid_handle t 0" "m_first_child (m_buf t ! unat (0 :: size_t)) = NONE"
    "parent_none_or_map t 0 False = Inr True"
    by (simp_all add: t_def eval_defs eval_defs2)
  note c = type_transitions_frame [where t = t and n = 0 and f = 0 and t' = t'
      and ty = "MAP OR 0" and key_s = clear_scalar and val_s = clear_scalar]
  from c h have m: "to_map t 0 0 = Inr t'"
    by (simp add: t'_def)
  from c h have u: "unchanged_but t 0 t'" "m_type (m_buf t' ! unat (0 :: size_t)) = MAP OR 0"
    "m_key (m_buf t' ! unat (0 :: size_t)) = clear_scalar"
    by (simp_all add: t'_def)
  from r h m u show ?thesis
    by auto
qed

section \<open>C10: finding a child by its key\<close>

text \<open>The loop of \<^verbatim>\<open>Tree::find_child\<close>:
  \<^verbatim>\<open>for(i = first_child(node); i != NONE; i = next_sibling(i))\<close>.  The walk over the
  siblings has a recursion budget; a walk that uses it up returns \<open>OutOfFuel\<close>.\<close>

fun find_child_loop :: "nat \<Rightarrow> Tree \<Rightarrow> size_t \<Rightarrow> csubstr \<Rightarrow> size_t res" where
  "find_child_loop 0 t i name = Inl OutOfFuel"
| "find_child_loop (Suc fuel) t i name =
     (if i = NONE then Inr NONE
      else rbind (priv_p t i) (\<lambda>n.
           if chars (scalar (m_key n)) = chars name then Inr i
           else rbind (next_sibling t i) (\<lambda>j. find_child_loop fuel t j name)))"

text \<open>\<^verbatim>\<open>Tree::find_child\<close>.\<close>

definition find_child :: "nat \<Rightarrow> Tree \<Rightarrow> size_t \<Rightarrow> csubstr \<Rightarrow> size_t res" where
  "find_child fuel t node name =
     (if node = NONE then Inl AssertFailed
      else rbind (priv_p t node) (\<lambda>n.
        if is_val_bits (m_type n) then Inr NONE
        else if \<not> is_map_bits (m_type n) then Inl AssertFailed
        else if chars name = [] then Inl AssertFailed
        else if m_first_child n = NONE
             then (if m_last_child n = NONE then Inr NONE else Inl AssertFailed)
             else if m_last_child n = NONE then Inl AssertFailed
                  else rbind (first_child t node) (\<lambda>i. find_child_loop fuel t i name)))"

text \<open>\<open>sibling_chain t i cs\<close>: following \<open>m_next_sibling\<close> from \<open>i\<close> visits the handles \<open>cs\<close>,
  all valid, and then reaches \<^verbatim>\<open>NONE\<close>.\<close>

fun sibling_chain :: "Tree \<Rightarrow> size_t \<Rightarrow> size_t list \<Rightarrow> bool" where
  "sibling_chain t i [] = (i = NONE)"
| "sibling_chain t i (c # cs) =
     (i = c \<and> valid_handle t c \<and> sibling_chain t (m_next_sibling (m_buf t ! unat c)) cs)"

text \<open>The key of record \<open>c\<close>, and the first handle of a list whose key is \<open>name\<close>.\<close>

definition key_chars :: "Tree \<Rightarrow> size_t \<Rightarrow> string" where
  "key_chars t c = chars (scalar (m_key (m_buf t ! unat c)))"

definition first_with_key :: "Tree \<Rightarrow> size_t list \<Rightarrow> string \<Rightarrow> size_t" where
  "first_with_key t cs name =
     (case List.find (\<lambda>c. key_chars t c = name) cs of None \<Rightarrow> NONE | Some c \<Rightarrow> c)"

lemma find_child_loop_chain:
  "sibling_chain t i cs \<Longrightarrow> length cs < fuel \<Longrightarrow>
     find_child_loop fuel t i name = Inr (first_with_key t cs (chars name))"
proof (induction cs arbitrary: i fuel)
  case Nil
  then obtain k where "fuel = Suc k"
    by (cases fuel) auto
  with Nil show ?case
    by (simp add: first_with_key_def)
next
  case (Cons c cs)
  then obtain k where k: "fuel = Suc k" "length cs < k"
    by (cases fuel) auto
  from Cons.prems have v: "i = c" "valid_handle t c"
    and ch: "sibling_chain t (m_next_sibling (m_buf t ! unat c)) cs"
    by simp_all
  from Cons.IH [OF ch k(2)] v k show ?case
    by (simp add: valid_handle_def priv_p_def raw_def next_sibling_def first_with_key_def
        key_chars_def)
qed

text \<open>
  C10, as far as the code does it.  \<^verbatim>\<open>find_child(n, name)\<close> returns \<^verbatim>\<open>NONE\<close> when \<open>n\<close> is a
  \<^verbatim>\<open>VAL\<close>.  Any other node has to be a map: on a sequence, a document that is not a map, or
  a \<^verbatim>\<open>KEYVAL\<close> leaf the call fails the assertion \<^verbatim>\<open>is_map\<close>, also when the node has no
  children.  On a map and for a nonempty name it returns the first child of \<open>n\<close>, in
  \<open>next_sibling\<close> order, whose key equals \<open>name\<close>, and \<^verbatim>\<open>NONE\<close> when the map has no children
  or no child with that key.  The function is \<^verbatim>\<open>const\<close>: the model returns the handle and
  no state.

  For every valid handle \<open>n\<close> whose children are the chain \<open>cs\<close>, and every budget larger
  than the number of children, the theorem gives the result of the call: \<^verbatim>\<open>NONE\<close> for a
  \<^verbatim>\<open>VAL\<close>; an assertion failure where an assertion of the source fails (the node is not a
  map, the name is empty, or only one of \<open>first_child\<close>, \<open>last_child\<close> is \<^verbatim>\<open>NONE\<close>); and
  otherwise the first handle of \<open>cs\<close> whose key is \<open>name\<close>, or \<^verbatim>\<open>NONE\<close> when there is none.
\<close>

theorem find_child_first_match:
  assumes "valid_handle t n"
    and "sibling_chain t (m_first_child (m_buf t ! unat n)) cs"
    and "length cs < fuel"
  shows "find_child fuel t n name =
     (if is_val_bits (m_type (m_buf t ! unat n)) then Inr NONE
      else if \<not> is_map_bits (m_type (m_buf t ! unat n)) \<or> chars name = [] \<or>
              (m_first_child (m_buf t ! unat n) = NONE) \<noteq> (m_last_child (m_buf t ! unat n) = NONE)
           then Inl AssertFailed
           else Inr (first_with_key t cs (chars name)))"
proof -
  have "m_first_child (m_buf t ! unat n) = NONE \<Longrightarrow> cs = []"
    using assms(2) by (cases cs) (auto simp: valid_handle_def)
  then show ?thesis
    using assms find_child_loop_chain [OF assms(2,3), of name]
    by (auto simp: find_child_def valid_handle_def priv_p_def raw_def first_child_def
        first_with_key_def)
qed

text \<open>Witness for C10: in the map \<open>{a: 1, b: 2}\<close> the child with key \<open>b\<close> is handle 2, there
  is no child with key \<open>c\<close>, and the call on the \<^verbatim>\<open>KEYVAL\<close> node 1 fails the assertion
  \<^verbatim>\<open>is_map\<close>.\<close>

theorem find_child_first_match_witness:
  "\<exists>t. map_ab = Inr t \<and> valid_handle t 0 \<and>
        sibling_chain t (m_first_child (m_buf t ! unat (0 :: size_t))) [1, 2] \<and>
        find_child 3 t 0 (ext ''b'') = Inr 2 \<and>
        find_child 3 t 0 (ext ''c'') = Inr NONE \<and>
        find_child 3 t 1 (ext ''b'') = Inl AssertFailed"
proof -
  define t where "t = projr map_ab"
  have m: "map_ab = Inr t"
    by (simp add: t_def map_ab_def eval_defs eval_defs2)
  have h: "valid_handle t 0" "valid_handle t 1"
    "sibling_chain t (m_first_child (m_buf t ! unat (0 :: size_t))) [1, 2]"
    "sibling_chain t (m_first_child (m_buf t ! unat (1 :: size_t))) []"
    "length [1, 2 :: size_t] < 3" "length ([] :: size_t list) < 3"
    by (simp_all add: t_def map_ab_def eval_defs eval_defs2)
  have v: "\<not> is_val_bits (m_type (m_buf t ! unat (0 :: size_t)))"
    "is_map_bits (m_type (m_buf t ! unat (0 :: size_t)))"
    "m_first_child (m_buf t ! unat (0 :: size_t)) \<noteq> NONE"
    "m_last_child (m_buf t ! unat (0 :: size_t)) \<noteq> NONE"
    "is_val_bits (m_type (m_buf t ! unat (1 :: size_t))) = False"
    "key_chars t 1 = ''a''" "key_chars t 2 = ''b''"
    by (simp_all add: t_def map_ab_def eval_defs eval_defs2 key_chars_def)
  have f: "find_child 3 t 0 (ext ''b'') = Inr 2" "find_child 3 t 0 (ext ''c'') = Inr NONE"
    using find_child_first_match [OF h(1,3,5), of "ext ''b''"]
      find_child_first_match [OF h(1,3,5), of "ext ''c''"] v
    by (simp_all add: first_with_key_def ext_def NONE_def)
  have w: "\<not> is_map_bits (m_type (m_buf t ! unat (1 :: size_t)))"
    by (simp add: t_def map_ab_def eval_defs eval_defs2)
  have g: "find_child 3 t 1 (ext ''b'') = Inl AssertFailed"
    using find_child_first_match [OF h(2,4,6), of "ext ''b''"] v w
    by simp
  from m h f g show ?thesis
    by blast
qed

text \<open>A sequence without children.\<close>

definition empty_seq :: "Tree res" where
  "empty_seq = rbind (reserve (Tree_new alloc0) 4 0) (\<lambda>t0. to_seq t0 0 0)"

text \<open>C10 as the claim states it: a sequence without children and a \<^verbatim>\<open>KEYVAL\<close> leaf have no
  children, and the call does not return \<^verbatim>\<open>NONE\<close> on them.\<close>

theorem find_child_not_a_map_counterexample:
  "(\<exists>t. empty_seq = Inr t \<and> valid_handle t 0 \<and> node_type t 0 = Inr SEQ \<and>
        first_child t 0 = Inr NONE \<and> find_child 3 t 0 (ext ''a'') = Inl AssertFailed) \<and>
   (\<exists>t. map_ab = Inr t \<and> valid_handle t 1 \<and> node_type t 1 = Inr KEYVAL \<and>
        first_child t 1 = Inr NONE \<and> find_child 3 t 1 (ext ''a'') = Inl AssertFailed)"
  by (simp add: empty_seq_def map_ab_def find_child_def valid_handle_def ext_def eval_defs
      eval_defs2)

section \<open>Swapping two records and reordering\<close>

text \<open>Reads and writes through a reference that \<^verbatim>\<open>_p\<close> has already validated.\<close>

definition nd :: "Tree \<Rightarrow> size_t \<Rightarrow> NodeData" where
  "nd t i = m_buf t ! unat i"

definition wr :: "Tree \<Rightarrow> size_t \<Rightarrow> (NodeData \<Rightarrow> NodeData) \<Rightarrow> Tree" where
  "wr t i f = t\<lparr>m_buf := (m_buf t)[unat i := f (m_buf t ! unat i)]\<rparr>"

text \<open>Modelled from the spec: \<^verbatim>\<open>_copy_props\<close>, \<^verbatim>\<open>_copy_props_wo_key\<close> and \<^verbatim>\<open>type(i)\<close> are
  declared in \<^verbatim>\<open>tree.hpp\<close>, which is not among the sources.  Section 4.3: the bulk copy
  of \<open>type\<close>, \<open>key\<close> (optional) and \<open>val\<close>.\<close>

definition priv_copy_props :: "Tree \<Rightarrow> size_t \<Rightarrow> size_t \<Rightarrow> Tree res" where
  "priv_copy_props t dst src =
     rbind (priv_p t dst) (\<lambda>d.
     rbind (priv_p t src) (\<lambda>s.
     Inr (wr t dst (\<lambda>n. n\<lparr>m_type := m_type s, m_key := m_key s, m_val := m_val s\<rparr>))))"

definition priv_copy_props_wo_key :: "Tree \<Rightarrow> size_t \<Rightarrow> size_t \<Rightarrow> Tree res" where
  "priv_copy_props_wo_key t dst src =
     rbind (priv_p t dst) (\<lambda>d.
     rbind (priv_p t src) (\<lambda>s.
     Inr (wr t dst (\<lambda>n. n\<lparr>m_type := m_type s, m_val := m_val s\<rparr>))))"

text \<open>\<^verbatim>\<open>Tree::_swap_props\<close>.\<close>

definition priv_swap_props :: "Tree \<Rightarrow> size_t \<Rightarrow> size_t \<Rightarrow> Tree res" where
  "priv_swap_props t ni mi =
     rbind (priv_p t ni) (\<lambda>n.
     rbind (priv_p t mi) (\<lambda>m.
     Inr (wr (wr t ni (\<lambda>x. x\<lparr>m_type := m_type m, m_key := m_key m, m_val := m_val m\<rparr>))
             mi (\<lambda>x. x\<lparr>m_type := m_type n, m_key := m_key n, m_val := m_val n\<rparr>))))"

text \<open>The two loops at the head of \<^verbatim>\<open>_swap_hierarchy\<close> and the loop of \<^verbatim>\<open>_copy_hierarchy\<close>:
  every child in the chain from \<open>i\<close>, except \<open>ia\<close> and \<open>ib\<close>, gets the parent \<open>p\<close>.\<close>

fun reparent_loop :: "nat \<Rightarrow> Tree \<Rightarrow> size_t \<Rightarrow> size_t \<Rightarrow> size_t \<Rightarrow> size_t \<Rightarrow> Tree res" where
  "reparent_loop 0 t i ia ib p = Inl OutOfFuel"
| "reparent_loop (Suc fuel) t i ia ib p =
     (if i = NONE then Inr t
      else rbind (if i = ib \<or> i = ia then Inr t
                  else p_upd t i (\<lambda>n. n\<lparr>m_parent := p\<rparr>)) (\<lambda>t1.
           rbind (next_sibling t1 i) (\<lambda>j.
           reparent_loop fuel t1 j ia ib p)))"

text \<open>\<^verbatim>\<open>_swap_hierarchy\<close>, lines 507 to 530: the first and last child of the two parents.\<close>

definition swap_in_parents :: "Tree \<Rightarrow> size_t \<Rightarrow> size_t \<Rightarrow> size_t \<Rightarrow> size_t \<Rightarrow> Tree" where
  "swap_in_parents t ia ib ipa ipb =
     (if ipa = ipb
      then (if (m_first_child (nd t ipa) = ib \<and> m_last_child (nd t ipa) = ia) \<or>
               (m_first_child (nd t ipa) = ia \<and> m_last_child (nd t ipa) = ib)
            then wr t ipa (\<lambda>p. p\<lparr>m_first_child := m_last_child p, m_last_child := m_first_child p\<rparr>)
            else (let c1 = (m_first_child (nd t ipa) = ia);
                      t1 = (if c1 then wr t ipa (\<lambda>p. p\<lparr>m_first_child := ib\<rparr>) else t);
                      c2 = (m_last_child (nd t1 ipa) = ia);
                      t2 = (if c2 then wr t1 ipa (\<lambda>p. p\<lparr>m_last_child := ib\<rparr>) else t1);
                      changed = (c1 \<or> c2);
                      t3 = (if m_first_child (nd t2 ipb) = ib \<and> \<not> changed
                            then wr t2 ipb (\<lambda>p. p\<lparr>m_first_child := ia\<rparr>) else t2)
                  in if m_last_child (nd t3 ipb) = ib \<and> \<not> changed
                     then wr t3 ipb (\<lambda>p. p\<lparr>m_last_child := ia\<rparr>) else t3))
      else (let t1 = (if m_first_child (nd t ipa) = ia
                      then wr t ipa (\<lambda>p. p\<lparr>m_first_child := ib\<rparr>) else t);
                t2 = (if m_last_child (nd t1 ipa) = ia
                      then wr t1 ipa (\<lambda>p. p\<lparr>m_last_child := ib\<rparr>) else t1);
                t3 = (if m_first_child (nd t2 ipb) = ib
                      then wr t2 ipb (\<lambda>p. p\<lparr>m_first_child := ia\<rparr>) else t2)
            in if m_last_child (nd t3 ipb) = ib
               then wr t3 ipb (\<lambda>p. p\<lparr>m_last_child := ia\<rparr>) else t3))"

text \<open>Lines 531 and 532: \<^verbatim>\<open>std::swap(a.m_first_child, b.m_first_child)\<close> and the same for
  \<open>m_last_child\<close>.\<close>

definition swap_children_fields :: "Tree \<Rightarrow> size_t \<Rightarrow> size_t \<Rightarrow> Tree" where
  "swap_children_fields t ia ib =
     (let a = nd t ia; b = nd t ib
      in wr (wr t ia (\<lambda>n. n\<lparr>m_first_child := m_first_child b, m_last_child := m_last_child b\<rparr>))
            ib (\<lambda>n. n\<lparr>m_first_child := m_first_child a, m_last_child := m_last_child a\<rparr>))"

text \<open>Lines 534 to 600: the sibling links.  In the last branch the source keeps
  \<^verbatim>\<open>ns = b.m_prev_sibling\<close> and ends with \<^verbatim>\<open>b.m_next_sibling = ns\<close>.\<close>

definition swap_siblings :: "Tree \<Rightarrow> size_t \<Rightarrow> size_t \<Rightarrow> Tree res" where
  "swap_siblings t ia ib =
     (if m_prev_sibling (nd t ia) \<noteq> ib \<and> m_prev_sibling (nd t ib) \<noteq> ia \<and>
         m_next_sibling (nd t ia) \<noteq> ib \<and> m_next_sibling (nd t ib) \<noteq> ia
      then rbind (if m_prev_sibling (nd t ia) \<noteq> NONE \<and> m_prev_sibling (nd t ia) \<noteq> ib
                  then p_upd t (m_prev_sibling (nd t ia)) (\<lambda>n. n\<lparr>m_next_sibling := ib\<rparr>)
                  else Inr t) (\<lambda>t1.
           rbind (if m_next_sibling (nd t1 ia) \<noteq> NONE \<and> m_next_sibling (nd t1 ia) \<noteq> ib
                  then p_upd t1 (m_next_sibling (nd t1 ia)) (\<lambda>n. n\<lparr>m_prev_sibling := ib\<rparr>)
                  else Inr t1) (\<lambda>t2.
           rbind (if m_prev_sibling (nd t2 ib) \<noteq> NONE \<and> m_prev_sibling (nd t2 ib) \<noteq> ia
                  then p_upd t2 (m_prev_sibling (nd t2 ib)) (\<lambda>n. n\<lparr>m_next_sibling := ia\<rparr>)
                  else Inr t2) (\<lambda>t3.
           rbind (if m_next_sibling (nd t3 ib) \<noteq> NONE \<and> m_next_sibling (nd t3 ib) \<noteq> ia
                  then p_upd t3 (m_next_sibling (nd t3 ib)) (\<lambda>n. n\<lparr>m_prev_sibling := ia\<rparr>)
                  else Inr t3) (\<lambda>t4.
           let a = nd t4 ia; b = nd t4 ib
           in Inr (wr (wr t4 ia (\<lambda>n. n\<lparr>m_prev_sibling := m_prev_sibling b,
                                        m_next_sibling := m_next_sibling b\<rparr>))
                      ib (\<lambda>n. n\<lparr>m_prev_sibling := m_prev_sibling a,
                                m_next_sibling := m_next_sibling a\<rparr>))))))
      else if m_next_sibling (nd t ia) = ib
      then (if m_prev_sibling (nd t ib) \<noteq> ia then Inl AssertFailed
            else rbind (if m_prev_sibling (nd t ia) \<noteq> NONE
                        then (if m_prev_sibling (nd t ia) = ib then Inl AssertFailed
                              else p_upd t (m_prev_sibling (nd t ia)) (\<lambda>n. n\<lparr>m_next_sibling := ib\<rparr>))
                        else Inr t) (\<lambda>t1.
                 rbind (if m_next_sibling (nd t1 ib) \<noteq> NONE
                        then (if m_next_sibling (nd t1 ib) = ia then Inl AssertFailed
                              else p_upd t1 (m_next_sibling (nd t1 ib)) (\<lambda>n. n\<lparr>m_prev_sibling := ia\<rparr>))
                        else Inr t1) (\<lambda>t2.
                 let ns = m_next_sibling (nd t2 ib);
                     t3 = wr t2 ib (\<lambda>n. n\<lparr>m_prev_sibling := m_prev_sibling (nd t2 ia)\<rparr>);
                     t4 = wr t3 ib (\<lambda>n. n\<lparr>m_next_sibling := ia\<rparr>);
                     t5 = wr t4 ia (\<lambda>n. n\<lparr>m_prev_sibling := ib\<rparr>)
                 in Inr (wr t5 ia (\<lambda>n. n\<lparr>m_next_sibling := ns\<rparr>)))))
      else if m_prev_sibling (nd t ia) = ib
      then (if m_next_sibling (nd t ib) \<noteq> ia then Inl AssertFailed
            else rbind (if m_prev_sibling (nd t ib) \<noteq> NONE
                        then (if m_prev_sibling (nd t ib) = ia then Inl AssertFailed
                              else p_upd t (m_prev_sibling (nd t ib)) (\<lambda>n. n\<lparr>m_next_sibling := ia\<rparr>))
                        else Inr t) (\<lambda>t1.
                 rbind (if m_next_sibling (nd t1 ia) \<noteq> NONE
                        then (if m_next_sibling (nd t1 ia) = ib then Inl AssertFailed
                              else p_upd t1 (m_next_sibling (nd t1 ia)) (\<lambda>n. n\<lparr>m_prev_sibling := ib\<rparr>))
                        else Inr t1) (\<lambda>t2.
                 let ns = m_prev_sibling (nd t2 ib);
                     t3 = wr t2 ia (\<lambda>n. n\<lparr>m_prev_sibling := m_prev_sibling (nd t2 ib)\<rparr>);
                     t4 = wr t3 ia (\<lambda>n. n\<lparr>m_next_sibling := ib\<rparr>);
                     t5 = wr t4 ib (\<lambda>n. n\<lparr>m_prev_sibling := ia\<rparr>)
                 in Inr (wr t5 ib (\<lambda>n. n\<lparr>m_next_sibling := ns\<rparr>)))))
      else Inl NeverReach)"

text \<open>Lines 601 to 626: the four assertions and the parents of \<open>a\<close> and \<open>b\<close>.\<close>

definition swap_parent_fields :: "Tree \<Rightarrow> size_t \<Rightarrow> size_t \<Rightarrow> Tree res" where
  "swap_parent_fields t ia ib =
     (let a = nd t ia; b = nd t ib
      in if m_next_sibling a = ia \<or> m_prev_sibling a = ia \<or>
            m_next_sibling b = ib \<or> m_prev_sibling b = ib then Inl AssertFailed
         else if m_parent a \<noteq> ib \<and> m_parent b \<noteq> ia
         then Inr (wr (wr t ia (\<lambda>n. n\<lparr>m_parent := m_parent b\<rparr>)) ib (\<lambda>n. n\<lparr>m_parent := m_parent a\<rparr>))
         else if m_parent a = ib \<and> m_parent b \<noteq> ia
         then Inr (wr (wr t ia (\<lambda>n. n\<lparr>m_parent := m_parent b\<rparr>)) ib (\<lambda>n. n\<lparr>m_parent := ia\<rparr>))
         else if m_parent a \<noteq> ib \<and> m_parent b = ia
         then Inr (wr (wr t ib (\<lambda>n. n\<lparr>m_parent := m_parent a\<rparr>)) ia (\<lambda>n. n\<lparr>m_parent := ib\<rparr>))
         else Inl NeverReach)"

text \<open>\<^verbatim>\<open>Tree::_swap_hierarchy\<close>.\<close>

definition priv_swap_hierarchy :: "nat \<Rightarrow> Tree \<Rightarrow> size_t \<Rightarrow> size_t \<Rightarrow> Tree res" where
  "priv_swap_hierarchy fuel t ia ib =
     (if ia = ib then Inr t
      else rbind (first_child t ia) (\<lambda>fa.
           rbind (reparent_loop fuel t fa ia ib ib) (\<lambda>t1.
           rbind (first_child t1 ib) (\<lambda>fb.
           rbind (reparent_loop fuel t1 fb ia ib ia) (\<lambda>t2.
           rbind (priv_p t2 ia) (\<lambda>a.
           rbind (priv_p t2 ib) (\<lambda>b.
           rbind (priv_p t2 (m_parent a)) (\<lambda>pa.
           rbind (priv_p t2 (m_parent b)) (\<lambda>pb.
           rbind (swap_siblings
                    (swap_children_fields
                       (swap_in_parents t2 ia ib (m_parent a) (m_parent b)) ia ib) ia ib) (\<lambda>t3.
           swap_parent_fields t3 ia ib))))))))))"


text \<open>The loop of \<^verbatim>\<open>_copy_hierarchy\<close>: every child in the chain from \<open>i\<close> gets the parent \<open>p\<close>.\<close>

fun set_parent_loop :: "nat \<Rightarrow> Tree \<Rightarrow> size_t \<Rightarrow> size_t \<Rightarrow> Tree res" where
  "set_parent_loop 0 t i p = Inl OutOfFuel"
| "set_parent_loop (Suc fuel) t i p =
     (if i = NONE then Inr t
      else rbind (p_upd t i (\<lambda>n. n\<lparr>m_parent := p\<rparr>)) (\<lambda>t1.
           rbind (next_sibling t1 i) (\<lambda>j.
           set_parent_loop fuel t1 j p)))"

text \<open>\<^verbatim>\<open>Tree::_copy_hierarchy\<close>.\<close>

definition priv_copy_hierarchy :: "nat \<Rightarrow> Tree \<Rightarrow> size_t \<Rightarrow> size_t \<Rightarrow> Tree res" where
  "priv_copy_hierarchy fuel t dst src =
     rbind (priv_p t src) (\<lambda>s.
     rbind (priv_p t dst) (\<lambda>d.
     rbind (priv_p t (m_parent s)) (\<lambda>prt.
     rbind (set_parent_loop fuel t (m_first_child s) dst) (\<lambda>t1.
     rbind (if m_prev_sibling (nd t1 src) \<noteq> NONE
            then p_upd t1 (m_prev_sibling (nd t1 src)) (\<lambda>n. n\<lparr>m_next_sibling := dst\<rparr>)
            else Inr t1) (\<lambda>t2.
     rbind (if m_next_sibling (nd t2 src) \<noteq> NONE
            then p_upd t2 (m_next_sibling (nd t2 src)) (\<lambda>n. n\<lparr>m_prev_sibling := dst\<rparr>)
            else Inr t2) (\<lambda>t3.
     let iprt = m_parent s;
         t4 = (if m_first_child (nd t3 iprt) = src
               then wr t3 iprt (\<lambda>n. n\<lparr>m_first_child := dst\<rparr>) else t3);
         t5 = (if m_last_child (nd t4 iprt) = src
               then wr t4 iprt (\<lambda>n. n\<lparr>m_last_child := dst\<rparr>) else t4);
         s5 = nd t5 src
     in Inr (wr t5 dst (\<lambda>n. n\<lparr>m_parent := m_parent s5, m_first_child := m_first_child s5,
                                 m_last_child := m_last_child s5,
                                 m_prev_sibling := m_prev_sibling s5,
                                 m_next_sibling := m_next_sibling s5\<rparr>))))))))"

text \<open>\<^verbatim>\<open>Tree::_swap\<close>.\<close>

definition priv_swap :: "nat \<Rightarrow> Tree \<Rightarrow> size_t \<Rightarrow> size_t \<Rightarrow> Tree res" where
  "priv_swap fuel t ni mi =
     rbind (parent t ni) (\<lambda>pn.
     rbind (node_type t ni) (\<lambda>tn.
     if pn = NONE \<and> tn \<noteq> NOTYPE then Inl AssertFailed else
     rbind (parent t mi) (\<lambda>pm.
     rbind (node_type t mi) (\<lambda>tm.
     if pm = NONE \<and> tm \<noteq> NOTYPE then Inl AssertFailed
     else if tn \<noteq> NOTYPE \<and> tm \<noteq> NOTYPE
     then rbind (priv_swap_props t ni mi) (\<lambda>t1. priv_swap_hierarchy fuel t1 ni mi)
     else if tn = NOTYPE \<and> tm \<noteq> NOTYPE
     then rbind (priv_copy_props t ni mi) (\<lambda>t1.
          rbind (priv_free_list_rem t1 ni) (\<lambda>t2.
          rbind (priv_copy_hierarchy fuel t2 ni mi) (\<lambda>t3.
          rbind (priv_clear t3 mi) (\<lambda>t4.
          priv_free_list_add t4 mi))))
     else if tn \<noteq> NOTYPE \<and> tm = NOTYPE
     then rbind (priv_copy_props t mi ni) (\<lambda>t1.
          rbind (priv_free_list_rem t1 mi) (\<lambda>t2.
          rbind (priv_copy_hierarchy fuel t2 mi ni) (\<lambda>t3.
          rbind (priv_clear t3 ni) (\<lambda>t4.
          priv_free_list_add t4 ni))))
     else Inl NeverReach))))"

text \<open>\<^verbatim>\<open>Tree::_do_reorder\<close>: the function and its loop over the children.  The function
  returns the new handle of the node (the source writes it through \<^verbatim>\<open>*node\<close>) and the
  count.\<close>

fun do_reorder :: "nat \<Rightarrow> Tree \<Rightarrow> size_t \<Rightarrow> size_t \<Rightarrow> (size_t \<times> size_t \<times> Tree) res"
  and do_reorder_loop :: "nat \<Rightarrow> Tree \<Rightarrow> size_t \<Rightarrow> size_t \<Rightarrow> (size_t \<times> Tree) res"
where
  "do_reorder 0 t node count = Inl OutOfFuel"
| "do_reorder (Suc fuel) t node count =
     rbind (if node \<noteq> count
            then rbind (priv_swap fuel t node count) (\<lambda>t1. Inr (count, t1))
            else Inr (node, t)) (\<lambda>(node1, t1).
     rbind (first_child t1 node1) (\<lambda>i.
     rbind (do_reorder_loop fuel t1 i (count + 1)) (\<lambda>(count1, t2).
     Inr (node1, count1, t2))))"
| "do_reorder_loop 0 t i count = Inl OutOfFuel"
| "do_reorder_loop (Suc fuel) t i count =
     (if i = NONE then Inr (count, t)
      else rbind (do_reorder fuel t i count) (\<lambda>(i1, count1, t1).
           rbind (next_sibling t1 i1) (\<lambda>j.
           do_reorder_loop fuel t1 j count1)))"

text \<open>Modelled from the spec: \<^verbatim>\<open>root_id()\<close> is declared in \<^verbatim>\<open>tree.hpp\<close>, which is not among
  the sources.  The root is handle 0 (section 3.4); a tree without a buffer gets one.\<close>

definition root_id :: "Tree \<Rightarrow> (size_t \<times> Tree) res" where
  "root_id t =
     rbind (if m_cap t = 0 then reserve t 16 0 else Inr t) (\<lambda>t1.
     if 0 < m_cap t1 \<and> 0 < m_size t1 then Inr (0, t1) else Inl AssertFailed)"

text \<open>\<^verbatim>\<open>Tree::reorder\<close>.\<close>

definition reorder :: "nat \<Rightarrow> Tree \<Rightarrow> Tree res" where
  "reorder fuel t =
     rbind (root_id t) (\<lambda>(r, t1).
     rbind (do_reorder fuel t1 r 0) (\<lambda>(r1, count, t2). Inr t2))"

text \<open>Modelled from the spec: \<^verbatim>\<open>remove(node)\<close> is declared in \<^verbatim>\<open>tree.hpp\<close>, which is not
  among the sources.  Section 4.3: it recursively removes all descendants, then releases
  the node.\<close>

fun remove :: "nat \<Rightarrow> Tree \<Rightarrow> size_t \<Rightarrow> Tree res"
  and remove_children_loop :: "nat \<Rightarrow> Tree \<Rightarrow> size_t \<Rightarrow> Tree res"
where
  "remove 0 t node = Inl OutOfFuel"
| "remove (Suc fuel) t node =
     rbind (first_child t node) (\<lambda>ich.
     rbind (remove_children_loop fuel t ich) (\<lambda>t1.
     priv_release t1 node))"
| "remove_children_loop 0 t ich = Inl OutOfFuel"
| "remove_children_loop (Suc fuel) t ich =
     (if ich = NONE then Inr t
      else rbind (next_sibling t ich) (\<lambda>next.
           rbind (remove fuel t ich) (\<lambda>t1.
           remove_children_loop fuel t1 next)))"

text \<open>The recursion budget of the walks is a numeral in the evaluations below.\<close>

lemma fuel_numeral:
  "reparent_loop (numeral k) = reparent_loop (Suc (pred_numeral k))"
  "set_parent_loop (numeral k) = set_parent_loop (Suc (pred_numeral k))"
  "do_reorder (numeral k) = do_reorder (Suc (pred_numeral k))"
  "do_reorder_loop (numeral k) = do_reorder_loop (Suc (pred_numeral k))"
  "remove (numeral k) = remove (Suc (pred_numeral k))"
  "remove_children_loop (numeral k) = remove_children_loop (Suc (pred_numeral k))"
  "find_child_loop (numeral k) = find_child_loop (Suc (pred_numeral k))"
  by (simp_all add: numeral_eq_Suc)

lemmas eval_defs3 = nd_def wr_def priv_copy_props_def priv_copy_props_wo_key_def
  priv_swap_props_def swap_in_parents_def swap_children_fields_def swap_siblings_def
  swap_parent_fields_def priv_swap_hierarchy_def priv_copy_hierarchy_def priv_swap_def
  root_id_def reorder_def fuel_numeral

section \<open>Pre-order walk\<close>

text \<open>The handles in depth-first pre-order from \<open>i\<close>: the node, then the walk of each child
  in \<open>next_sibling\<close> order.\<close>

fun preorder :: "nat \<Rightarrow> Tree \<Rightarrow> size_t \<Rightarrow> size_t list res"
  and preorder_loop :: "nat \<Rightarrow> Tree \<Rightarrow> size_t \<Rightarrow> size_t list res"
where
  "preorder 0 t i = Inl OutOfFuel"
| "preorder (Suc fuel) t i =
     rbind (first_child t i) (\<lambda>c.
     rbind (preorder_loop fuel t c) (\<lambda>xs. Inr (i # xs)))"
| "preorder_loop 0 t c = Inl OutOfFuel"
| "preorder_loop (Suc fuel) t c =
     (if c = NONE then Inr []
      else rbind (preorder fuel t c) (\<lambda>xs.
           rbind (next_sibling t c) (\<lambda>n.
           rbind (preorder_loop fuel t n) (\<lambda>ys. Inr (xs @ ys)))))"

lemma preorder_numeral:
  "preorder (numeral k) = preorder (Suc (pred_numeral k))"
  "preorder_loop (numeral k) = preorder_loop (Suc (pred_numeral k))"
  by (simp_all add: numeral_eq_Suc)

section \<open>Example trees\<close>

text \<open>The sequence \<open>[x, y, z]\<close> in a tree of capacity 4: root 0, children 1, 2 and 3.\<close>

definition seq_xyz :: "Tree res" where
  "seq_xyz =
     rbind (reserve (Tree_new alloc0) 4 0) (\<lambda>t0.
     rbind (to_seq t0 0 0) (\<lambda>t1.
     rbind (new_child t1 0 NONE) (\<lambda>(a, t2).
     rbind (to_val t2 a (ext ''x'') 0) (\<lambda>t3.
     rbind (new_child t3 0 a) (\<lambda>(b, t4).
     rbind (to_val t4 b (ext ''y'') 0) (\<lambda>t5.
     rbind (new_child t5 0 b) (\<lambda>(c, t6).
     to_val t6 c (ext ''z'') 0)))))))"

text \<open>From \<open>[x, y, z]\<close>: remove \<open>x\<close> and \<open>y\<close>, then add \<open>w\<close> in front of \<open>z\<close>.\<close>

definition seq_wz :: "Tree res" where
  "seq_wz =
     rbind seq_xyz (\<lambda>t0.
     rbind (remove 2 t0 1) (\<lambda>t1.
     rbind (remove 2 t1 2) (\<lambda>t2.
     rbind (new_child t2 0 NONE) (\<lambda>(w, t3).
     to_val t3 w (ext ''w'') 0))))"

section \<open>Moving and duplicating\<close>

text \<open>Modelled from the spec: \<^verbatim>\<open>is_root\<close>, \<^verbatim>\<open>has_key\<close>, \<^verbatim>\<open>key\<close>, \<^verbatim>\<open>has_child\<close> and
  \<^verbatim>\<open>has_sibling\<close> are declared in \<^verbatim>\<open>tree.hpp\<close>, which is not among the sources.  The root
  is the node without a parent; \<^verbatim>\<open>key(i)\<close> is the text of the key of a node that has one;
  \<open>ch\<close> is a child of \<open>node\<close> when \<^verbatim>\<open>child_pos(node, ch)\<close> finds it, and a sibling of a node
  when it is a child of that node's parent.\<close>

definition is_root :: "Tree \<Rightarrow> size_t \<Rightarrow> bool res" where
  "is_root t i =
     rbind (priv_p t i) (\<lambda>n.
     if m_parent n \<noteq> NONE \<or> i = 0 then Inr (m_parent n = NONE) else Inl AssertFailed)"

definition key :: "Tree \<Rightarrow> size_t \<Rightarrow> csubstr res" where
  "key t i =
     rbind (priv_p t i) (\<lambda>n.
     if has_key_bits (m_type n) then Inr (scalar (m_key n)) else Inl AssertFailed)"

text \<open>\<^verbatim>\<open>Tree::child_pos\<close>: the loop, and the function.\<close>

fun child_pos_loop :: "nat \<Rightarrow> Tree \<Rightarrow> size_t \<Rightarrow> size_t \<Rightarrow> size_t \<Rightarrow> size_t res" where
  "child_pos_loop 0 t i ch count = Inl OutOfFuel"
| "child_pos_loop (Suc fuel) t i ch count =
     (if i = NONE then Inr npos
      else if i = ch then Inr count
      else rbind (next_sibling t i) (\<lambda>j. child_pos_loop fuel t j ch (count + 1)))"

definition child_pos :: "nat \<Rightarrow> Tree \<Rightarrow> size_t \<Rightarrow> size_t \<Rightarrow> size_t res" where
  "child_pos fuel t node ch =
     rbind (first_child t node) (\<lambda>i. child_pos_loop fuel t i ch 0)"

definition has_child :: "nat \<Rightarrow> Tree \<Rightarrow> size_t \<Rightarrow> size_t \<Rightarrow> bool res" where
  "has_child fuel t node ch = rbind (child_pos fuel t node ch) (\<lambda>p. Inr (p \<noteq> npos))"

definition has_sibling :: "nat \<Rightarrow> Tree \<Rightarrow> size_t \<Rightarrow> size_t \<Rightarrow> bool res" where
  "has_sibling fuel t node sib =
     rbind (parent t node) (\<lambda>p. has_child fuel t p sib)"

text \<open>\<^verbatim>\<open>Tree::move(node, after)\<close>.\<close>

definition move :: "nat \<Rightarrow> Tree \<Rightarrow> size_t \<Rightarrow> size_t \<Rightarrow> Tree res" where
  "move fuel t node after =
     (if node = NONE then Inl AssertFailed
      else rbind (is_root t node) (\<lambda>r. if r then Inl AssertFailed else
           rbind (has_sibling fuel t node after) (\<lambda>s1. if \<not> s1 then Inl AssertFailed else
           rbind (has_sibling fuel t after node) (\<lambda>s2. if \<not> s2 then Inl AssertFailed else
           rbind (priv_rem_hierarchy t node) (\<lambda>t1.
           rbind (parent t1 node) (\<lambda>p.
           priv_set_hierarchy t1 node p after))))))"

text \<open>\<^verbatim>\<open>Tree::duplicate(node, parent, after)\<close> and its loop over the children of \<open>node\<close>.\<close>

fun duplicate :: "nat \<Rightarrow> Tree \<Rightarrow> size_t \<Rightarrow> size_t \<Rightarrow> size_t \<Rightarrow> (size_t \<times> Tree) res"
  and duplicate_loop :: "nat \<Rightarrow> Tree \<Rightarrow> size_t \<Rightarrow> size_t \<Rightarrow> size_t \<Rightarrow> Tree res"
where
  "duplicate 0 t node iparent after = Inl OutOfFuel"
| "duplicate (Suc fuel) t node iparent after =
     (if node = NONE \<or> iparent = NONE then Inl AssertFailed
      else rbind (is_root t node) (\<lambda>r. if r then Inl AssertFailed else
           rbind (priv_claim t) (\<lambda>(copy, t1).
           rbind (priv_copy_props t1 copy node) (\<lambda>t2.
           rbind (priv_set_hierarchy t2 copy iparent after) (\<lambda>t3.
           rbind (first_child t3 node) (\<lambda>i.
           rbind (duplicate_loop fuel t3 i copy NONE) (\<lambda>t4.
           Inr (copy, t4))))))))"
| "duplicate_loop 0 t i copy lst = Inl OutOfFuel"
| "duplicate_loop (Suc fuel) t i copy lst =
     (if i = NONE then Inr t
      else rbind (duplicate fuel t i copy lst) (\<lambda>(lst1, t1).
           rbind (next_sibling t1 i) (\<lambda>j.
           duplicate_loop fuel t1 j copy lst1)))"

text \<open>\<^verbatim>\<open>Tree::duplicate_children(node, parent, after)\<close>.\<close>

fun duplicate_children_loop ::
  "nat \<Rightarrow> Tree \<Rightarrow> size_t \<Rightarrow> size_t \<Rightarrow> size_t \<Rightarrow> (size_t \<times> Tree) res" where
  "duplicate_children_loop 0 t i iparent prev = Inl OutOfFuel"
| "duplicate_children_loop (Suc fuel) t i iparent prev =
     (if i = NONE then Inr (prev, t)
      else rbind (duplicate fuel t i iparent prev) (\<lambda>(prev1, t1).
           rbind (next_sibling t1 i) (\<lambda>j.
           duplicate_children_loop fuel t1 j iparent prev1)))"

definition duplicate_children ::
  "nat \<Rightarrow> Tree \<Rightarrow> size_t \<Rightarrow> size_t \<Rightarrow> size_t \<Rightarrow> (size_t \<times> Tree) res" where
  "duplicate_children fuel t node iparent after =
     (if node = NONE \<or> iparent = NONE then Inl AssertFailed
      else rbind (if after = NONE then Inr True else has_child fuel t iparent after) (\<lambda>ok.
           if \<not> ok then Inl AssertFailed
           else rbind (first_child t node) (\<lambda>i.
                duplicate_children_loop fuel t i iparent after)))"

text \<open>\<^verbatim>\<open>Tree::duplicate_contents(node, where)\<close>.\<close>

definition duplicate_contents :: "nat \<Rightarrow> Tree \<Rightarrow> size_t \<Rightarrow> size_t \<Rightarrow> Tree res" where
  "duplicate_contents fuel t node whr =
     (if node = NONE \<or> whr = NONE then Inl AssertFailed
      else rbind (priv_copy_props_wo_key t whr node) (\<lambda>t1.
           rbind (duplicate_children fuel t1 node whr NONE) (\<lambda>(prev, t2). Inr t2)))"

text \<open>\<^verbatim>\<open>Tree::duplicate_children_no_rep\<close>.  First the search for the position of \<open>after\<close>
  among the children of the parent (\<^verbatim>\<open>NONE\<close> when the loop ends without finding it).\<close>

fun after_pos_loop :: "nat \<Rightarrow> Tree \<Rightarrow> size_t \<Rightarrow> size_t \<Rightarrow> size_t \<Rightarrow> size_t res" where
  "after_pos_loop 0 t i after icount = Inl OutOfFuel"
| "after_pos_loop (Suc fuel) t i after icount =
     (if i = NONE then Inr NONE
      else if i = after then Inr icount
      else rbind (next_sibling t i) (\<lambda>j. after_pos_loop fuel t j after (icount + 1)))"

text \<open>The search for a child \<open>j\<close> of the parent with \<^verbatim>\<open>key(j) == key(i)\<close>: the handle
  \<open>rep\<close> and its position \<open>rep_pos\<close>, both \<^verbatim>\<open>NONE\<close> when there is none.\<close>

fun rep_loop :: "nat \<Rightarrow> Tree \<Rightarrow> size_t \<Rightarrow> size_t \<Rightarrow> size_t \<Rightarrow> (size_t \<times> size_t) res" where
  "rep_loop 0 t j i jcount = Inl OutOfFuel"
| "rep_loop (Suc fuel) t j i jcount =
     (if j = NONE then Inr (NONE, NONE)
      else rbind (key t j) (\<lambda>kj.
           rbind (key t i) (\<lambda>ki.
           if chars kj = chars ki then Inr (j, jcount)
           else rbind (next_sibling t j) (\<lambda>j1. rep_loop fuel t j1 i (jcount + 1)))))"

text \<open>The body of the loop over the children \<open>i\<close> of the source: the new cursor \<open>prev\<close>
  and the new state.\<close>

definition no_rep_body ::
  "nat \<Rightarrow> Tree \<Rightarrow> size_t \<Rightarrow> size_t \<Rightarrow> size_t \<Rightarrow> size_t \<Rightarrow> (size_t \<times> Tree) res" where
  "no_rep_body fuel t iparent after_pos prev i =
     rbind (is_seq t iparent) (\<lambda>sq.
     if sq then duplicate fuel t i iparent prev
     else rbind (is_map t iparent) (\<lambda>mp. if \<not> mp then Inl AssertFailed else
          rbind (first_child t iparent) (\<lambda>j.
          rbind (rep_loop fuel t j i 0) (\<lambda>(rep, rep_pos).
          if rep = NONE then duplicate fuel t i iparent prev
          else if after_pos \<noteq> NONE \<and> rep_pos < after_pos
          then rbind (remove fuel t rep) (\<lambda>t1. duplicate fuel t1 i iparent prev)
          else if after_pos = NONE \<or> rep_pos \<ge> after_pos
          then (if rep \<noteq> prev
                then rbind (move fuel t rep prev) (\<lambda>t1. Inr (rep, t1))
                else Inr (prev, t))
          else Inr (prev, t)))))"

fun no_rep_loop ::
  "nat \<Rightarrow> Tree \<Rightarrow> size_t \<Rightarrow> size_t \<Rightarrow> size_t \<Rightarrow> size_t \<Rightarrow> (size_t \<times> Tree) res" where
  "no_rep_loop 0 t iparent after_pos prev i = Inl OutOfFuel"
| "no_rep_loop (Suc fuel) t iparent after_pos prev i =
     (if i = NONE then Inr (prev, t)
      else rbind (no_rep_body fuel t iparent after_pos prev i) (\<lambda>(prev1, t1).
           rbind (next_sibling t1 i) (\<lambda>j.
           no_rep_loop fuel t1 iparent after_pos prev1 j)))"

definition duplicate_children_no_rep ::
  "nat \<Rightarrow> Tree \<Rightarrow> size_t \<Rightarrow> size_t \<Rightarrow> size_t \<Rightarrow> (size_t \<times> Tree) res" where
  "duplicate_children_no_rep fuel t node iparent after =
     (if node = NONE \<or> iparent = NONE then Inl AssertFailed
      else rbind (if after = NONE then Inr True else has_child fuel t iparent after) (\<lambda>ok.
           if \<not> ok then Inl AssertFailed
           else rbind (if after \<noteq> NONE
                       then rbind (first_child t iparent) (\<lambda>i.
                            rbind (after_pos_loop fuel t i after 0) (\<lambda>ap.
                            if ap = NONE then Inl AssertFailed else Inr ap))
                       else Inr NONE) (\<lambda>after_pos.
                rbind (first_child t node) (\<lambda>i.
                no_rep_loop fuel t iparent after_pos after i))))"


text \<open>The keys and values of the children of a node, in \<open>next_sibling\<close> order.\<close>

fun children_kv_loop :: "nat \<Rightarrow> Tree \<Rightarrow> size_t \<Rightarrow> (string \<times> string) list res" where
  "children_kv_loop 0 t i = Inl OutOfFuel"
| "children_kv_loop (Suc fuel) t i =
     (if i = NONE then Inr []
      else rbind (priv_p t i) (\<lambda>n.
           rbind (children_kv_loop fuel t (m_next_sibling n)) (\<lambda>kvs.
           Inr ((chars (scalar (m_key n)), chars (scalar (m_val n))) # kvs))))"

definition children_kv :: "nat \<Rightarrow> Tree \<Rightarrow> size_t \<Rightarrow> (string \<times> string) list res" where
  "children_kv fuel t node = rbind (first_child t node) (\<lambda>i. children_kv_loop fuel t i)"


lemma fuel_numeral2:
  "child_pos_loop (numeral k) = child_pos_loop (Suc (pred_numeral k))"
  "duplicate (numeral k) = duplicate (Suc (pred_numeral k))"
  "duplicate_loop (numeral k) = duplicate_loop (Suc (pred_numeral k))"
  "duplicate_children_loop (numeral k) = duplicate_children_loop (Suc (pred_numeral k))"
  "after_pos_loop (numeral k) = after_pos_loop (Suc (pred_numeral k))"
  "rep_loop (numeral k) = rep_loop (Suc (pred_numeral k))"
  "no_rep_loop (numeral k) = no_rep_loop (Suc (pred_numeral k))"
  "children_kv_loop (numeral k) = children_kv_loop (Suc (pred_numeral k))"
  by (simp_all add: numeral_eq_Suc)

lemmas eval_defs4 = is_root_def key_def child_pos_def has_child_def has_sibling_def move_def
  duplicate_children_def duplicate_contents_def no_rep_body_def duplicate_children_no_rep_def
  children_kv_def npos_def fuel_numeral2

section \<open>C5: swapping two records\<close>

text \<open>In the evaluations the second argument of \<open>rbind\<close> is left alone until the first
  one is a value.\<close>

lemma rbind_weak_cong: "m = m' \<Longrightarrow> rbind m f = rbind m' f"
  by simp

lemmas eval_all = eval_defs eval_defs2 eval_defs3 eval_defs4 preorder_numeral

text \<open>
  C5 states that \<^verbatim>\<open>_swap(a, b)\<close> twice is a no-op and that one \<^verbatim>\<open>_swap(a, b)\<close> keeps the
  structural invariants, also for adjacent siblings.
  The code does not do this when \<open>b\<close> is the previous sibling of \<open>a\<close>.  In the sequence
  \<open>[x, y, z]\<close> (root 0, children 1, 2, 3), \<^verbatim>\<open>_swap(2, 1)\<close> takes the branch
  \<^verbatim>\<open>a.m_prev_sibling == ib\<close> of \<^verbatim>\<open>_swap_hierarchy\<close>, which ends with
  \<^verbatim>\<open>b.m_next_sibling = ns\<close> where \<open>ns\<close> is the old \<^verbatim>\<open>b.m_prev_sibling\<close> (here \<^verbatim>\<open>NONE\<close>) and not
  the old \<^verbatim>\<open>a.m_next_sibling\<close> (here 3).  Afterwards the chain from the first child of the
  root is 2, 1 and ends there, while the last child of the root is still 3, whose
  previous sibling is 1: node 3 is no longer reached.  A second \<^verbatim>\<open>_swap(2, 1)\<close> does not
  restore the tree.  No assertion fails on the way: each call returns.
\<close>

theorem swap_with_previous_sibling_breaks_chain:
  "\<exists>t t1 t2. seq_xyz = Inr t \<and> preorder 8 t 0 = Inr [0, 1, 2, 3] \<and> last_child t 0 = Inr 3 \<and>
      priv_swap 8 t 2 1 = Inr t1 \<and>
      first_child t1 0 = Inr 2 \<and> next_sibling t1 2 = Inr 1 \<and> next_sibling t1 1 = Inr NONE \<and>
      last_child t1 0 = Inr 3 \<and> prev_sibling t1 3 = Inr 1 \<and> parent t1 3 = Inr 0 \<and>
      preorder 8 t1 0 = Inr [0, 2, 1] \<and>
      priv_swap 8 t1 2 1 = Inr t2 \<and> t2 \<noteq> t \<and>
      next_sibling t 2 = Inr 3 \<and> next_sibling t2 2 = Inr NONE"
  by (simp add: seq_xyz_def eval_all del: Suc_numeral cong: rbind_weak_cong)

section \<open>C4: reordering\<close>

text \<open>
  C4 states that after \<^verbatim>\<open>reorder()\<close> a pre-order walk from the root visits the handles
  \<open>0, 1, ..., size - 1\<close>.
  The code does not do this for a tree with a gap left by two removals and a claim.
  From \<open>[x, y, z]\<close> (capacity 4), \<^verbatim>\<open>remove(1)\<close> and \<^verbatim>\<open>remove(2)\<close> put 2 and then 1 on the free
  list, so that slot 1 has \<open>m_prev_sibling = 2\<close>; the next claim pops 2 and leaves that
  link in the new head 1.  With 2 attached in front of 3 the tree is \<open>[w, z]\<close>, the
  pre-order walk is 0, 2, 3.  \<^verbatim>\<open>reorder()\<close> calls \<^verbatim>\<open>_swap(2, 1)\<close>; slot 1 is free, so
  \<^verbatim>\<open>_free_list_rem(1)\<close> runs \<^verbatim>\<open>_rem_hierarchy(1)\<close>, which follows the stale link and writes
  \<^verbatim>\<open>NONE\<close> into \<open>m_next_sibling\<close> of the live node 2 before its links are copied to slot 1.
  \<^verbatim>\<open>reorder()\<close> returns; the size is still 3, but the walk from the root is 0, 1; node 3
  (\<open>z\<close>) is live, has parent 0, and is not reached, and slot 2 is free.
\<close>

theorem reorder_loses_a_node:
  "\<exists>t t'. seq_wz = Inr t \<and> m_size t = 3 \<and> preorder 8 t 0 = Inr [0, 2, 3] \<and>
      reorder 8 t = Inr t' \<and> m_size t' = 3 \<and>
      preorder 8 t' 0 = Inr [0, 1] \<and>
      node_type t' 2 = Inr NOTYPE \<and> node_type t' 3 = Inr VAL \<and>
      parent t' 3 = Inr 0 \<and> next_sibling t' 1 = Inr NONE"
  by (simp add: seq_wz_def seq_xyz_def eval_all del: Suc_numeral cong: rbind_weak_cong)

section \<open>C2: merging the children of a map without repetition\<close>





text \<open>Records and trees written out: a record from its type, key, value, parent, first
  child, last child, next sibling and previous sibling; a tree without an arena from its
  records, capacity, size, free head and free tail.\<close>

definition mk_node :: "type_bits \<Rightarrow> NodeScalar \<Rightarrow> NodeScalar \<Rightarrow> size_t \<Rightarrow> size_t \<Rightarrow> size_t \<Rightarrow>
    size_t \<Rightarrow> size_t \<Rightarrow> NodeData" where
  "mk_node ty k v p fc lc nx pv =
     \<lparr>m_type = ty, m_key = k, m_val = v, m_parent = p, m_first_child = fc, m_last_child = lc,
      m_next_sibling = nx, m_prev_sibling = pv\<rparr>"

definition mk_tree :: "NodeData list \<Rightarrow> size_t \<Rightarrow> size_t \<Rightarrow> size_t \<Rightarrow> size_t \<Rightarrow> Tree" where
  "mk_tree buf cap sz fh ft =
     \<lparr>m_buf = buf, m_cap = cap, m_size = sz, m_free_head = fh, m_free_tail = ft,
      m_arena = \<lparr>arena_str = 0, arena_len = 0\<rparr>, m_arena_pos = 0, m_alloc = alloc0\<rparr>"

definition lit :: "string \<Rightarrow> NodeScalar" where
  "lit s = scalar_of (ext s)"


lemmas lit_defs = mk_node_def mk_tree_def lit_def





section \<open>Anchors and references\<close>

text \<open>Modelled from the spec: the anchor and reference predicates, \<^verbatim>\<open>val\<close>, \<^verbatim>\<open>has_anchor\<close>,
  \<^verbatim>\<open>rem_anchor_ref\<close> and the setters of an anchor are declared in \<^verbatim>\<open>tree.hpp\<close>, which is
  not among the sources.  Section 3.2: \<^verbatim>\<open>KEYREF\<close> and \<^verbatim>\<open>VALREF\<close> say that the key or the value
  is an alias, the anchor presence bits that the key or the value has an anchor; the name
  of the anchor is the \<open>anchor\<close> span of the scalar.  A node has the anchor \<open>a\<close> when the
  anchor of its key or of its value is \<open>a\<close>.  \<^verbatim>\<open>rem_anchor_ref\<close> empties both anchor spans
  and clears the four bits.\<close>

definition is_key_ref :: "Tree \<Rightarrow> size_t \<Rightarrow> bool res" where
  "is_key_ref t i = rbind (priv_p t i) (\<lambda>n. Inr (m_type n AND KEYREF \<noteq> 0))"

definition is_val_ref :: "Tree \<Rightarrow> size_t \<Rightarrow> bool res" where
  "is_val_ref t i = rbind (priv_p t i) (\<lambda>n. Inr (m_type n AND VALREF \<noteq> 0))"

definition has_key_anchor :: "Tree \<Rightarrow> size_t \<Rightarrow> bool res" where
  "has_key_anchor t i = rbind (priv_p t i) (\<lambda>n. Inr (m_type n AND KEYANCH \<noteq> 0))"

definition has_val_anchor :: "Tree \<Rightarrow> size_t \<Rightarrow> bool res" where
  "has_val_anchor t i = rbind (priv_p t i) (\<lambda>n. Inr (m_type n AND VALANCH \<noteq> 0))"

definition has_key :: "Tree \<Rightarrow> size_t \<Rightarrow> bool res" where
  "has_key t i = rbind (priv_p t i) (\<lambda>n. Inr (has_key_bits (m_type n)))"

definition has_val :: "Tree \<Rightarrow> size_t \<Rightarrow> bool res" where
  "has_val t i = rbind (priv_p t i) (\<lambda>n. Inr (has_val_bits (m_type n)))"

definition is_keyval :: "Tree \<Rightarrow> size_t \<Rightarrow> bool res" where
  "is_keyval t i = rbind (priv_p t i) (\<lambda>n. Inr (is_keyval_bits (m_type n)))"

definition val :: "Tree \<Rightarrow> size_t \<Rightarrow> csubstr res" where
  "val t i =
     rbind (priv_p t i) (\<lambda>n.
     if has_val_bits (m_type n) then Inr (scalar (m_val n)) else Inl AssertFailed)"

definition has_anchor :: "Tree \<Rightarrow> size_t \<Rightarrow> csubstr \<Rightarrow> bool res" where
  "has_anchor t i a =
     rbind (priv_p t i) (\<lambda>n.
     Inr (chars (anchor (m_key n)) = chars a \<or> chars (anchor (m_val n)) = chars a))"

definition rem_anchor_ref :: "Tree \<Rightarrow> size_t \<Rightarrow> Tree res" where
  "rem_anchor_ref t i =
     p_upd t i (\<lambda>n. n\<lparr>m_key := (m_key n)\<lparr>anchor := empty_csubstr\<rparr>,
                       m_val := (m_val n)\<lparr>anchor := empty_csubstr\<rparr>,
                       m_type := m_type n AND NOT (KEYREF OR VALREF OR KEYANCH OR VALANCH)\<rparr>)"

definition set_val_anchor :: "Tree \<Rightarrow> size_t \<Rightarrow> csubstr \<Rightarrow> Tree res" where
  "set_val_anchor t i a =
     p_upd t i (\<lambda>n. n\<lparr>m_val := (m_val n)\<lparr>anchor := a\<rparr>, m_type := m_type n OR VALANCH\<rparr>)"

definition set_key_anchor :: "Tree \<Rightarrow> size_t \<Rightarrow> csubstr \<Rightarrow> Tree res" where
  "set_key_anchor t i a =
     p_upd t i (\<lambda>n. n\<lparr>m_key := (m_key n)\<lparr>anchor := a\<rparr>, m_type := m_type n OR KEYANCH\<rparr>)"

text \<open>\<^verbatim>\<open>Tree::num_children\<close>.\<close>

fun num_children_loop :: "nat \<Rightarrow> Tree \<Rightarrow> size_t \<Rightarrow> size_t \<Rightarrow> size_t res" where
  "num_children_loop 0 t i count = Inl OutOfFuel"
| "num_children_loop (Suc fuel) t i count =
     (if i = NONE then Inr count
      else rbind (next_sibling t i) (\<lambda>j. num_children_loop fuel t j (count + 1)))"

definition num_children :: "nat \<Rightarrow> Tree \<Rightarrow> size_t \<Rightarrow> size_t res" where
  "num_children fuel t i =
     rbind (priv_p t i) (\<lambda>n.
     if is_val_bits (m_type n) then Inr 0
     else rbind (first_child t i) (\<lambda>c. num_children_loop fuel t c 0))"

section \<open>Reference resolver\<close>

text \<open>\<^verbatim>\<open>detail::ReferenceResolver::refdata\<close>.  The fields carry the prefix \<open>rd_\<close>.\<close>

record refdata =
  rd_is_ref :: bool
  rd_node :: size_t
  rd_prev_anchor :: size_t
  rd_target :: size_t
  rd_parent_ref :: size_t
  rd_parent_ref_sibling :: size_t

text \<open>\<^verbatim>\<open>ReferenceResolver::count\<close> and its loop over the children.\<close>

fun count_refs :: "nat \<Rightarrow> Tree \<Rightarrow> size_t \<Rightarrow> size_t res"
  and count_refs_loop :: "nat \<Rightarrow> Tree \<Rightarrow> size_t \<Rightarrow> size_t \<Rightarrow> size_t res"
where
  "count_refs 0 t n = Inl OutOfFuel"
| "count_refs (Suc fuel) t n =
     rbind (is_key_ref t n) (\<lambda>kr.
     rbind (is_val_ref t n) (\<lambda>vr.
     rbind (has_key_anchor t n) (\<lambda>ka.
     rbind (has_val_anchor t n) (\<lambda>va.
     rbind (first_child t n) (\<lambda>ch.
     count_refs_loop fuel t ch (if kr \<or> vr \<or> ka \<or> va then 1 else 0))))))"
| "count_refs_loop 0 t ch c = Inl OutOfFuel"
| "count_refs_loop (Suc fuel) t ch c =
     (if ch = NONE then Inr c
      else rbind (count_refs fuel t ch) (\<lambda>k.
           rbind (next_sibling t ch) (\<lambda>j.
           count_refs_loop fuel t j (c + k))))"

text \<open>The loop of \<^verbatim>\<open>_store_anchors_and_refs\<close> over the children of an alias sequence:
  each child is recorded with the sequence as \<open>parent_ref\<close>.\<close>

fun store_seq_loop :: "nat \<Rightarrow> Tree \<Rightarrow> size_t \<Rightarrow> size_t \<Rightarrow> refdata list \<Rightarrow> refdata list res" where
  "store_seq_loop 0 t n i refs = Inl OutOfFuel"
| "store_seq_loop (Suc fuel) t n i refs =
     (if i = NONE then Inr refs
      else rbind (num_children fuel t i) (\<lambda>nc. if nc \<noteq> 0 then Inl AssertFailed else
           rbind (next_sibling t n) (\<lambda>sib.
           rbind (next_sibling t i) (\<lambda>j.
           store_seq_loop fuel t n j
             (refs @ [\<lparr>rd_is_ref = True, rd_node = i, rd_prev_anchor = npos, rd_target = npos,
                       rd_parent_ref = n, rd_parent_ref_sibling = sib\<rparr>])))))"

text \<open>\<^verbatim>\<open>ReferenceResolver::_store_anchors_and_refs\<close> and its loop over the children.  The
  stack \<open>refs\<close> is a list, \<^verbatim>\<open>push\<close> appends.\<close>

fun store_anchors_and_refs :: "nat \<Rightarrow> Tree \<Rightarrow> size_t \<Rightarrow> refdata list \<Rightarrow> refdata list res"
  and store_children_loop :: "nat \<Rightarrow> Tree \<Rightarrow> size_t \<Rightarrow> refdata list \<Rightarrow> refdata list res"
where
  "store_anchors_and_refs 0 t n refs = Inl OutOfFuel"
| "store_anchors_and_refs (Suc fuel) t n refs =
     rbind (is_key_ref t n) (\<lambda>kr.
     rbind (is_val_ref t n) (\<lambda>vr.
     rbind (if kr \<or> vr then Inr True
            else rbind (has_key t n) (\<lambda>hk.
                 if hk then rbind (key t n) (\<lambda>k. Inr (chars k = ''<<'')) else Inr False)) (\<lambda>is_alias.
     rbind (is_seq t n) (\<lambda>sq.
     if is_alias \<and> sq
     then rbind (first_child t n) (\<lambda>i. store_seq_loop fuel t n i refs)
     else rbind (if is_alias
                 then rbind (has_val t n) (\<lambda>hv.
                      if hv then Inr (refs @ [\<lparr>rd_is_ref = True, rd_node = n, rd_prev_anchor = npos,
                                               rd_target = npos, rd_parent_ref = NONE,
                                               rd_parent_ref_sibling = NONE\<rparr>])
                      else Inl NeverReach)
                 else Inr refs) (\<lambda>refs1.
          rbind (has_key_anchor t n) (\<lambda>ka.
          rbind (has_val_anchor t n) (\<lambda>va.
          let refs2 = (if ka \<or> va
                       then refs1 @ [\<lparr>rd_is_ref = False, rd_node = n, rd_prev_anchor = npos,
                                      rd_target = npos, rd_parent_ref = NONE,
                                      rd_parent_ref_sibling = NONE\<rparr>]
                       else refs1)
          in rbind (first_child t n) (\<lambda>ch. store_children_loop fuel t ch refs2))))))))"
| "store_children_loop 0 t ch refs = Inl OutOfFuel"
| "store_children_loop (Suc fuel) t ch refs =
     (if ch = NONE then Inr refs
      else rbind (store_anchors_and_refs fuel t ch refs) (\<lambda>refs1.
           rbind (next_sibling t ch) (\<lambda>j.
           store_children_loop fuel t j refs1)))"

text \<open>The last loop of \<^verbatim>\<open>ReferenceResolver::store\<close>: every record gets the index of the
  nearest earlier anchor record.\<close>

fun link_prev_anchors :: "refdata list \<Rightarrow> size_t \<Rightarrow> size_t \<Rightarrow> refdata list" where
  "link_prev_anchors [] prev_anchor count = []"
| "link_prev_anchors (rd # rds) prev_anchor count =
     rd\<lparr>rd_prev_anchor := prev_anchor\<rparr>
       # link_prev_anchors rds (if \<not> rd_is_ref rd then count else prev_anchor) (count + 1)"

text \<open>\<^verbatim>\<open>ReferenceResolver::store\<close>.\<close>

definition store :: "nat \<Rightarrow> Tree \<Rightarrow> (refdata list \<times> Tree) res" where
  "store fuel t =
     rbind (root_id t) (\<lambda>(r, t1).
     rbind (count_refs fuel t1 r) (\<lambda>nrefs.
     if nrefs = 0 then Inr ([], t1)
     else rbind (root_id t1) (\<lambda>(r2, t2).
          rbind (store_anchors_and_refs fuel t2 r2 []) (\<lambda>refs.
          Inr (link_prev_anchors refs npos 0, t2)))))"

text \<open>\<^verbatim>\<open>ReferenceResolver::lookup_\<close>: the loop, started with the \<open>prev_anchor\<close> of the alias
  record, and the function.  \<^verbatim>\<open>refs[i]\<close> asserts that \<open>i\<close> is an index of the stack.\<close>

fun lookup_loop :: "nat \<Rightarrow> Tree \<Rightarrow> refdata list \<Rightarrow> csubstr \<Rightarrow> size_t \<Rightarrow> size_t res" where
  "lookup_loop 0 t refs refname pa = Inl OutOfFuel"
| "lookup_loop (Suc fuel) t refs refname pa =
     (if pa = npos then Inl NeverReach
      else if \<not> unat pa < length refs then Inl AssertFailed
      else rbind (has_anchor t (rd_node (refs ! unat pa)) refname) (\<lambda>h.
           if h then Inr (rd_node (refs ! unat pa))
           else lookup_loop fuel t refs refname (rd_prev_anchor (refs ! unat pa))))"

definition lookup :: "nat \<Rightarrow> Tree \<Rightarrow> refdata list \<Rightarrow> size_t \<Rightarrow> refdata \<Rightarrow> size_t res" where
  "lookup fuel t refs refnode ra =
     rbind (val t refnode) (\<lambda>refname.
     if \<not> (chars refname \<noteq> [] \<and> hd (chars refname) = CHR ''*'') then Inl AssertFailed
     else lookup_loop fuel t refs
            (refname\<lparr>str := str refname + 1, chars := tl (chars refname)\<rparr>)
            (rd_prev_anchor ra))"

text \<open>\<^verbatim>\<open>ReferenceResolver::resolve\<close>: the loop \<^verbatim>\<open>for(i = 0; i < e; ++i)\<close> over
  \<^verbatim>\<open>refs.top(i)\<close>, the record \<open>i\<close> places below the top of the stack.\<close>

fun resolve_targets :: "nat \<Rightarrow> nat \<Rightarrow> Tree \<Rightarrow> refdata list \<Rightarrow> nat \<Rightarrow> refdata list res" where
  "resolve_targets 0 fuel t refs i = Inr refs"
| "resolve_targets (Suc k) fuel t refs i =
     (let j = length refs - 1 - i; rd = refs ! j
      in if \<not> rd_is_ref rd then resolve_targets k fuel t refs (i + 1)
         else rbind (lookup fuel t refs (rd_node rd) rd) (\<lambda>tg.
              resolve_targets k fuel t (refs[j := rd\<lparr>rd_target := tg\<rparr>]) (i + 1)))"

definition resolver :: "nat \<Rightarrow> Tree \<Rightarrow> (refdata list \<times> Tree) res" where
  "resolver fuel t =
     rbind (store fuel t) (\<lambda>(refs, t1).
     if refs = [] then Inr (refs, t1)
     else rbind (resolve_targets (length refs) fuel t1 refs 0) (\<lambda>refs1. Inr (refs1, t1)))"

text \<open>\<^verbatim>\<open>Tree::resolve\<close>.  The first loop inserts the resolved references; its state is the
  tree, \<open>prev_parent_ref\<close> and \<open>prev_parent_ref_after\<close>.\<close>

fun insert_refs :: "nat \<Rightarrow> refdata list \<Rightarrow> Tree \<Rightarrow> size_t \<Rightarrow> size_t \<Rightarrow> Tree res" where
  "insert_refs fuel [] t ppr ppra = Inr t"
| "insert_refs fuel (rd # rds) t ppr ppra =
     (if \<not> rd_is_ref rd then insert_refs fuel rds t ppr ppra
      else if rd_parent_ref rd \<noteq> NONE
      then rbind (is_seq t (rd_parent_ref rd)) (\<lambda>sq. if \<not> sq then Inl AssertFailed else
           rbind (parent t (rd_parent_ref rd)) (\<lambda>p.
           rbind (duplicate_children_no_rep fuel t (rd_target rd) p
                    (if ppr \<noteq> rd_parent_ref rd then rd_parent_ref rd else ppra)) (\<lambda>(r, t1).
           rbind (remove fuel t1 (rd_node rd)) (\<lambda>t2.
           insert_refs fuel rds t2 (rd_parent_ref rd) r))))
      else rbind (has_key t (rd_node rd)) (\<lambda>hk.
           rbind (if hk then rbind (key t (rd_node rd)) (\<lambda>k. Inr (chars k = ''<<''))
                  else Inr False) (\<lambda>merge.
           if merge
           then rbind (is_keyval t (rd_node rd)) (\<lambda>kv. if \<not> kv then Inl AssertFailed else
                rbind (parent t (rd_node rd)) (\<lambda>p.
                rbind (prev_sibling t (rd_node rd)) (\<lambda>after.
                rbind (duplicate_children_no_rep fuel t (rd_target rd) p after) (\<lambda>(r, t1).
                rbind (remove fuel t1 (rd_node rd)) (\<lambda>t2.
                insert_refs fuel rds t2 ppr ppra)))))
           else rbind (duplicate_contents fuel t (rd_target rd) (rd_node rd)) (\<lambda>t1.
                insert_refs fuel rds t1 ppr ppra))))"

text \<open>The second loop clears the anchors and the references of the recorded nodes.\<close>

fun clear_refs :: "nat \<Rightarrow> refdata list \<Rightarrow> Tree \<Rightarrow> Tree res" where
  "clear_refs fuel [] t = Inr t"
| "clear_refs fuel (rd # rds) t =
     rbind (rem_anchor_ref t (rd_node rd)) (\<lambda>t1.
     rbind (if rd_parent_ref rd \<noteq> NONE
            then rbind (node_type t1 (rd_parent_ref rd)) (\<lambda>ty.
                 if ty \<noteq> NOTYPE then remove fuel t1 (rd_parent_ref rd) else Inr t1)
            else Inr t1) (\<lambda>t2.
     clear_refs fuel rds t2))"

definition resolve :: "nat \<Rightarrow> Tree \<Rightarrow> Tree res" where
  "resolve fuel t =
     (if m_size t = 0 then Inr t
      else rbind (resolver fuel t) (\<lambda>(refs, t1).
           rbind (insert_refs fuel refs t1 NONE NONE) (\<lambda>t2.
           clear_refs fuel refs t2)))"

text \<open>The document
  \<^verbatim>\<open>- &x {k: &y v}\<close>
  \<^verbatim>\<open>- *x\<close>
  as the parser builds it.\<close>

definition anchored_seq :: "Tree res" where
  "anchored_seq =
     rbind (reserve (Tree_new alloc0) 8 0) (\<lambda>t0.
     rbind (to_seq t0 0 0) (\<lambda>t1.
     rbind (new_child t1 0 NONE) (\<lambda>(m, t2).
     rbind (to_map t2 m 0) (\<lambda>t3.
     rbind (set_val_anchor t3 m (ext ''x'')) (\<lambda>t4.
     rbind (new_child t4 m NONE) (\<lambda>(k, t5).
     rbind (to_keyval t5 k (ext ''k'') (ext ''v'') 0) (\<lambda>t6.
     rbind (set_val_anchor t6 k (ext ''y'')) (\<lambda>t7.
     rbind (new_child t7 0 m) (\<lambda>(r, t8).
     to_val t8 r (ext ''*x'') VALREF)))))))))"


section \<open>C3: the lookup binds an alias to the nearest preceding anchor of its name\<close>

text \<open>The index of the last anchor record among the first \<open>k\<close> records.\<close>

fun last_anchor :: "refdata list \<Rightarrow> nat \<Rightarrow> nat option" where
  "last_anchor rs 0 = None"
| "last_anchor rs (Suc k) = (if \<not> rd_is_ref (rs ! k) then Some k else last_anchor rs k)"

definition names_anchor :: "Tree \<Rightarrow> string \<Rightarrow> refdata \<Rightarrow> bool" where
  "names_anchor t name rd =
     (\<not> rd_is_ref rd \<and>
      (chars (anchor (m_key (m_buf t ! unat (rd_node rd)))) = name \<or>
       chars (anchor (m_val (m_buf t ! unat (rd_node rd)))) = name))"

text \<open>The nearest record before the record \<open>k\<close> that is an anchor record of the name.\<close>

definition nearest_anchor :: "Tree \<Rightarrow> refdata list \<Rightarrow> nat \<Rightarrow> string \<Rightarrow> refdata option" where
  "nearest_anchor t rs k name = find (names_anchor t name) (rev (take k rs))"

lemma link_prev_anchors_length [simp]:
  "length (link_prev_anchors rs pa c) = length rs"
  by (induction rs arbitrary: pa c) auto

lemma last_anchor_Cons:
  "last_anchor (rd # rds) (Suc k) =
     (case last_anchor rds k of Some j \<Rightarrow> Some (Suc j)
      | None \<Rightarrow> if \<not> rd_is_ref rd then Some 0 else None)"
  by (induction k) auto

lemma link_prev_anchors_nth:
  "k < length rs \<Longrightarrow>
   link_prev_anchors rs pa c ! k =
     (rs ! k)\<lparr>rd_prev_anchor := (case last_anchor rs k of None \<Rightarrow> pa
                                | Some j \<Rightarrow> c + of_nat j)\<rparr>"
proof (induction rs arbitrary: pa c k)
  case Nil
  then show ?case by simp
next
  case (Cons rd rds)
  show ?case
  proof (cases k)
    case 0
    then show ?thesis by simp
  next
    case (Suc k')
    with Cons.prems have "k' < length rds" by simp
    from Cons.IH [OF this] show ?thesis
      unfolding Suc last_anchor_Cons
      by (simp split: option.splits)
  qed
qed







definition mk_rd :: "bool \<Rightarrow> size_t \<Rightarrow> refdata" where
  "mk_rd r n = \<lparr>rd_is_ref = r, rd_node = n, rd_prev_anchor = npos, rd_target = npos,
                rd_parent_ref = NONE, rd_parent_ref_sibling = NONE\<rparr>"


lemma fuel_numeral3:
  "num_children_loop (numeral k) = num_children_loop (Suc (pred_numeral k))"
  "count_refs (numeral k) = count_refs (Suc (pred_numeral k))"
  "count_refs_loop (numeral k) = count_refs_loop (Suc (pred_numeral k))"
  "store_seq_loop (numeral k) = store_seq_loop (Suc (pred_numeral k))"
  "store_anchors_and_refs (numeral k) = store_anchors_and_refs (Suc (pred_numeral k))"
  "store_children_loop (numeral k) = store_children_loop (Suc (pred_numeral k))"
  "lookup_loop (numeral k) = lookup_loop (Suc (pred_numeral k))"
  "resolve_targets (numeral k) = resolve_targets (Suc (pred_numeral k))"
  by (simp_all add: numeral_eq_Suc)

lemmas eval_defs5 = is_key_ref_def is_val_ref_def has_key_anchor_def has_val_anchor_def
  has_key_def has_val_def is_keyval_def val_def has_anchor_def rem_anchor_ref_def
  set_val_anchor_def set_key_anchor_def num_children_def store_def lookup_def resolver_def
  resolve_def mk_rd_def fuel_numeral3



definition alias_name :: "Tree \<Rightarrow> refdata \<Rightarrow> string" where
  "alias_name t rd = tl (chars (scalar (m_val (nd t (rd_node rd)))))"

text \<open>The record \<open>k\<close> of the linked list with its target bound: the node of the nearest
  earlier anchor record of the alias's name (\<^verbatim>\<open>NONE\<close> stands for no such record).\<close>

definition bound :: "Tree \<Rightarrow> refdata list \<Rightarrow> nat \<Rightarrow> refdata" where
  "bound t rs k =
     (let rd = link_prev_anchors rs npos 0 ! k
      in if rd_is_ref rd
         then rd\<lparr>rd_target := (case nearest_anchor t rs k (alias_name t rd) of
                                  None \<Rightarrow> NONE | Some a \<Rightarrow> rd_node a)\<rparr>
         else rd)"


lemma link_prev_anchors_is_ref:
  "k < length rs \<Longrightarrow> rd_is_ref (link_prev_anchors rs pa c ! k) = rd_is_ref (rs ! k)"
  "k < length rs \<Longrightarrow> rd_node (link_prev_anchors rs pa c ! k) = rd_node (rs ! k)"
  by (simp_all add: link_prev_anchors_nth)


text \<open>The list after \<open>i\<close> rounds of the loop of the lookup pass, which starts at the top
  of the stack: the last \<open>i\<close> records have their targets.\<close>

definition partly_bound :: "Tree \<Rightarrow> refdata list \<Rightarrow> nat \<Rightarrow> refdata list" where
  "partly_bound t rs i =
     map (\<lambda>k. if length rs - i \<le> k then bound t rs k else link_prev_anchors rs npos 0 ! k)
       [0 ..< length rs]"


lemma partly_bound_length [simp]: "length (partly_bound t rs i) = length rs"
  by (simp add: partly_bound_def)

















section \<open>C1: what resolve leaves behind\<close>

definition anchored_seq_tree :: Tree where
  "anchored_seq_tree = mk_tree
     [mk_node SEQ clear_scalar clear_scalar NONE 1 3 NONE NONE,
      mk_node (MAP OR VALANCH) clear_scalar (clear_scalar\<lparr>anchor := ext ''x''\<rparr>) 0 2 2 3 NONE,
      mk_node (KEYVAL OR VALANCH) (lit ''k'') ((lit ''v'')\<lparr>anchor := ext ''y''\<rparr>)
        1 NONE NONE NONE NONE,
      mk_node (VAL OR VALREF) clear_scalar (lit ''*x'') 0 NONE NONE NONE 1,
      mk_node NOTYPE clear_scalar clear_scalar NONE NONE NONE 5 3,
      mk_node NOTYPE clear_scalar clear_scalar NONE NONE NONE 6 4,
      mk_node NOTYPE clear_scalar clear_scalar NONE NONE NONE 7 5,
      mk_node NOTYPE clear_scalar clear_scalar NONE NONE NONE NONE 6]
     8 4 4 8"

lemma anchored_seq_eq: "anchored_seq = Inr anchored_seq_tree"
  by (simp add: anchored_seq_def anchored_seq_tree_def lit_defs eval_defs5 eval_all
      del: Suc_numeral cong: rbind_weak_cong)

definition anchored_seq_resolved :: Tree where
  "anchored_seq_resolved = mk_tree
     [mk_node SEQ clear_scalar clear_scalar NONE 1 3 NONE NONE,
      mk_node MAP clear_scalar clear_scalar 0 2 2 3 NONE,
      mk_node KEYVAL (lit ''k'') (lit ''v'') 1 NONE NONE NONE NONE,
      mk_node MAP clear_scalar clear_scalar 0 4 4 NONE 1,
      mk_node (KEYVAL OR VALANCH) (lit ''k'') ((lit ''v'')\<lparr>anchor := ext ''y''\<rparr>)
        3 NONE NONE NONE NONE,
      mk_node NOTYPE clear_scalar clear_scalar NONE NONE NONE 6 4,
      mk_node NOTYPE clear_scalar clear_scalar NONE NONE NONE 7 5,
      mk_node NOTYPE clear_scalar clear_scalar NONE NONE NONE NONE 6]
     8 5 5 8"

lemma anchored_seq_resolve: "resolve 8 anchored_seq_tree = Inr anchored_seq_resolved"
  by (simp add: anchored_seq_resolved_def anchored_seq_tree_def lit_defs eval_defs5 eval_all
      del: Suc_numeral cong: rbind_weak_cong)

text \<open>C1.  In the sequence \<^verbatim>\<open>[&x {k: &y v}, *x]\<close> the alias is replaced by a copy of the
  map: the node 4 is the copy of the pair \<^verbatim>\<open>k: &y v\<close>, a child of the former alias node 3.
  The clean-up visits the recorded nodes 1, 2 and 3 only, so that after \<^verbatim>\<open>resolve\<close> the
  node 4 still has its anchor bit and the anchor name \<open>y\<close>.\<close>

theorem resolve_leaves_anchor_on_copy:
  "\<exists>t t'. anchored_seq = Inr t \<and> resolve 8 t = Inr t' \<and>
     preorder 8 t' 0 = Inr [0, 1, 2, 3, 4] \<and>
     parent t' 4 = Inr 3 \<and>
     has_val_anchor t' 4 = Inr True \<and>
     rbind (priv_p t' 4) (\<lambda>n. Inr (chars (anchor (m_val n)))) = Inr ''y'' \<and>
     has_val_anchor t' 2 = Inr False \<and>
     is_val_ref t' 3 = Inr False"
proof -
  have "preorder 8 anchored_seq_resolved 0 = Inr [0, 1, 2, 3, 4] \<and>
     parent anchored_seq_resolved 4 = Inr 3 \<and>
     has_val_anchor anchored_seq_resolved 4 = Inr True \<and>
     rbind (priv_p anchored_seq_resolved 4) (\<lambda>n. Inr (chars (anchor (m_val n)))) = Inr ''y'' \<and>
     has_val_anchor anchored_seq_resolved 2 = Inr False \<and>
     is_val_ref anchored_seq_resolved 3 = Inr False"
    by (simp add: anchored_seq_resolved_def lit_defs eval_defs5 eval_all
        del: Suc_numeral cong: rbind_weak_cong)
  with anchored_seq_eq anchored_seq_resolve show ?thesis by blast
qed

section \<open>C6: growing the arena\<close>

text \<open>A tree with an arena of 16 characters at the address 4096, of which two are used:
  the value \<open>v\<close> of the node 1 at the offset 0 and its anchor \<open>a\<close> at the offset 1.\<close>

definition arena_tree :: "Tree res" where
  "arena_tree =
     rbind (reserve (Tree_new alloc0) 4 16) (\<lambda>t0.
     rbind (to_seq t0 0 0) (\<lambda>t1.
     rbind (new_child t1 0 NONE) (\<lambda>(c, t2).
     rbind (to_val t2 c \<lparr>str = 4096, chars = ''v''\<rparr> 0) (\<lambda>t3.
     rbind (set_val_anchor t3 c \<lparr>str = 4097, chars = ''a''\<rparr>) (\<lambda>t4.
     Inr (t4\<lparr>m_arena_pos := 2\<rparr>))))))"

lemma relocate_node_anchor:
  "anchor (m_key (relocate_node t next_arena n)) = anchor (m_key n) \<and>
   anchor (m_val (relocate_node t next_arena n)) = anchor (m_val n)"
  by (simp add: relocate_node_def Let_def)

text \<open>C6.  \<^verbatim>\<open>_relocate\<close> never changes the anchor of a key or of a value.  Growing the
  arena of the tree above from 16 to 32 characters moves the arena to the address 4112
  and frees the block at 4096: the value of the node 1 is moved to the same offset of the
  new arena, its anchor still points to the address 4097 in the freed block.\<close>

theorem relocate_forgets_anchors:
  "anchor (m_key (relocate_node t next_arena n)) = anchor (m_key n) \<and>
   anchor (m_val (relocate_node t next_arena n)) = anchor (m_val n) \<and>
   (\<exists>t0 t1. arena_tree = Inr t0 \<and> reserve t0 4 32 = Inr t1 \<and>
      m_arena t0 = \<lparr>arena_str = 4096, arena_len = 16\<rparr> \<and>
      m_arena t1 = \<lparr>arena_str = 4112, arena_len = 32\<rparr> \<and>
      freed (m_alloc t1) = [(4096, 16)] \<and>
      rbind (priv_p t0 1) (\<lambda>n. Inr (scalar (m_val n), anchor (m_val n))) =
        Inr (\<lparr>str = 4096, chars = ''v''\<rparr>, \<lparr>str = 4097, chars = ''a''\<rparr>) \<and>
      rbind (priv_p t1 1) (\<lambda>n. Inr (scalar (m_val n), anchor (m_val n))) =
        Inr (\<lparr>str = 4112, chars = ''v''\<rparr>, \<lparr>str = 4097, chars = ''a''\<rparr>) \<and>
      in_arena t0 \<lparr>str = 4097, chars = ''a''\<rparr> \<and>
      \<not> in_arena t1 \<lparr>str = 4097, chars = ''a''\<rparr>)"
  by (simp add: relocate_node_anchor arena_tree_def in_arena_def priv_relocated_def
      relocate_node_def priv_relocate_def reserve_arena_def allocate_def free_block_def
      eval_defs5 eval_all del: Suc_numeral cong: rbind_weak_cong)

end
